theory Spec2Isabelle
  imports Main "HOL-Library.Char_ord" "HOL-Library.List_Lexorder" "HOL-Library.Product_Lexorder"
begin

section \<open>Bytes, digests and tree entries\<close>

text \<open>
  Go byte slices are modelled as \<open>string\<close> (a list of 8-bit characters). A \<open>nil\<close> slice
  and an empty slice are both the empty list, as \<open>bytes.Equal\<close> and \<open>len\<close> see them.
  \<open>objects.ObjectHash\<close> is a Go string type (the sources compare it with \<open>""\<close>), so a
  digest is a \<open>string\<close> as well and its zero value is the empty string.
\<close>

type_synonym bytes = string
type_synonym ObjectHash = string

definition NL :: bytes where
  "NL = [CHR 0x0A]"

text \<open>\<open>bytes.HasSuffix(s, suffix)\<close> of the Go standard library.\<close>

definition HasSuffix :: "bytes \<Rightarrow> bytes \<Rightarrow> bool" where
  "HasSuffix s suffix =
     (length suffix \<le> length s \<and> drop (length s - length suffix) s = suffix)"

text \<open>
  Modelled from the spec: the tree entry type of \<open>pkg/objects/tree\<close>, which is not among
  the sources. An entry has a mode, a single-component name and the digest of the object it
  points to. The sources only ever ask an entry whether it \<open>IsFile()\<close> or \<open>IsDirectory()\<close>;
  \<open>OtherEntry\<close> stands for a mode for which both answers are no.
\<close>

datatype EntryKind = FileEntry | DirectoryEntry | OtherEntry

record TreeEntry =
  kind :: EntryKind
  name :: string
  sha :: ObjectHash

definition IsFile :: "TreeEntry \<Rightarrow> bool" where
  "IsFile e = (kind e = FileEntry)"

definition IsDirectory :: "TreeEntry \<Rightarrow> bool" where
  "IsDirectory e = (kind e = DirectoryEntry)"

text \<open>A tree object is the list of its entries, as \<open>Tree.Entries()\<close> returns it.\<close>

type_synonym Tree = "TreeEntry list"

text \<open>
  Go leaves the iteration order of a map unspecified. A loop over the keys of a map is
  modelled with the order the run takes as an explicit list; \<open>iteration_of order keys\<close>
  says that the list is one possible iteration of the key set.
\<close>

definition iteration_of :: "'a list \<Rightarrow> 'a set \<Rightarrow> bool" where
  "iteration_of order keys = (distinct order \<and> set order = keys)"

section \<open>Commit graph: ancestry and merge base (pkg/merge/mergebase.go)\<close>

text \<open>
  Modelled from the spec: the commit object of \<open>pkg/objects/commit\<close>, which is not among the
  sources. A commit has the digest of its tree, the digests of its parents in order, an
  author, a committer and a message; persons are kept as strings.
\<close>

record Commit =
  TreeSHA :: ObjectHash
  ParentSHAs :: "ObjectHash list"
  Author :: string
  Committer :: string
  Message :: string

text \<open>
  Modelled from the spec: the commit manager and the object store behind it, which are not
  among the sources. \<open>Initialize\<close> may fail; \<open>GetCommit\<close> reads a commit by digest and fails
  for a digest the store does not hold. The store is content-addressed and a read verifies
  the digest, so the commit read under a digest has that digest as its \<open>Hash()\<close>; the
  functions below therefore name a loaded commit by the digest it was loaded under.
\<close>

record CommitManager =
  initialize_ok :: bool
  objects :: "(ObjectHash \<times> Commit) list"

text \<open>The errors of the merge-base calculator.\<close>

datatype merge_error =
    InitializeFailed
  | GetCommitFailed ObjectHash
  | NoCommonAncestor
  | RetrieveFailed

definition Initialize :: "CommitManager \<Rightarrow> bool" where
  "Initialize mgr = initialize_ok mgr"

definition GetCommit :: "CommitManager \<Rightarrow> ObjectHash \<Rightarrow> Commit option" where
  "GetCommit mgr h = map_of (objects mgr) h"

text \<open>
  \<open>collectAncestors\<close> recurses into each readable parent in turn, threading the
  \<open>ancestors\<close> map. The recursion is written with its call stack made explicit: \<open>pending\<close>
  holds the digests still to be visited, the parents of the current commit in front of the
  remaining parents of its callers. A digest is first read (\<open>GetCommit\<close>, an error means
  \<open>continue\<close>) and then checked against \<open>ancestors\<close> (already visited means \<open>return\<close>), as
  in the source. The number of stored commits not yet in \<open>ancestors\<close> bounds the recursion.
\<close>

function collectAncestors ::
  "CommitManager \<Rightarrow> ObjectHash list \<Rightarrow> ObjectHash set \<Rightarrow> ObjectHash set" where
  "collectAncestors mgr [] ancestors = ancestors"
| "collectAncestors mgr (h # pending) ancestors =
     (case GetCommit mgr h of
        None \<Rightarrow> collectAncestors mgr pending ancestors
      | Some c \<Rightarrow>
          if h \<in> ancestors then collectAncestors mgr pending ancestors
          else collectAncestors mgr (ParentSHAs c @ pending) (insert h ancestors))"
  by pat_completeness auto
termination
proof (relation "measures [\<lambda>(mgr, pending, ancestors). card (fst ` set (objects mgr) - ancestors),
                           \<lambda>(mgr, pending, ancestors). length pending]", goal_cases)
  case 1
  show ?case by simp
next
  case (2 mgr h pending ancestors)
  show ?case by simp
next
  case (3 mgr h pending ancestors c)
  show ?case by simp
next
  case (4 mgr h pending ancestors c)
  from 4(1) have "h \<in> fst ` set (objects mgr)"
    by (auto simp: GetCommit_def dest: map_of_SomeD intro: rev_image_eqI)
  with 4(2) have "card (fst ` set (objects mgr) - insert h ancestors)
      < card (fst ` set (objects mgr) - ancestors)"
    by (intro psubset_card_mono) auto
  then show ?case by simp
qed

definition getAncestors :: "CommitManager \<Rightarrow> ObjectHash \<Rightarrow> ObjectHash set" where
  "getAncestors mgr h = collectAncestors mgr [h] {}"

definition IsAncestor :: "CommitManager \<Rightarrow> ObjectHash \<Rightarrow> ObjectHash \<Rightarrow> merge_error + bool" where
  "IsAncestor mgr possibleAncestorSHA commitSHA =
     (if \<not> Initialize mgr then Inl InitializeFailed
      else case GetCommit mgr commitSHA of
             None \<Rightarrow> Inl (GetCommitFailed commitSHA)
           | Some c \<Rightarrow> Inr (possibleAncestorSHA \<in> getAncestors mgr commitSHA))"

definition CanFastForward :: "CommitManager \<Rightarrow> ObjectHash \<Rightarrow> ObjectHash \<Rightarrow> merge_error + bool" where
  "CanFastForward mgr fromSHA toSHA =
     (if fromSHA = toSHA then Inr True
      else case IsAncestor mgr fromSHA toSHA of
             Inl err \<Rightarrow> Inl err
           | Inr isAncestor \<Rightarrow> Inr isAncestor)"

text \<open>
  The last loop of \<open>FindMergeBase\<close>: it returns the first key of \<open>commonAncestors\<close>, in the
  order the map iteration happens to take, whose commit can be read.
\<close>

fun first_retrievable ::
  "CommitManager \<Rightarrow> ObjectHash list \<Rightarrow> merge_error + (ObjectHash \<times> Commit)" where
  "first_retrievable mgr [] = Inl RetrieveFailed"
| "first_retrievable mgr (h # rest) =
     (case GetCommit mgr h of
        None \<Rightarrow> first_retrievable mgr rest
      | Some baseCommit \<Rightarrow> Inr (h, baseCommit))"

definition commonAncestors :: "CommitManager \<Rightarrow> ObjectHash \<Rightarrow> ObjectHash \<Rightarrow> ObjectHash set" where
  "commonAncestors mgr commit1SHA commit2SHA =
     (let ancestors1 = getAncestors mgr commit1SHA;
          ancestors2 = getAncestors mgr commit2SHA
      in {h \<in> ancestors1. h \<in> ancestors2})"

text \<open>
  \<open>FindMergeBase\<close> with the iteration order \<open>order\<close> that \<open>range commonAncestors\<close> takes.
\<close>

definition FindMergeBase ::
  "CommitManager \<Rightarrow> ObjectHash list \<Rightarrow> ObjectHash \<Rightarrow> ObjectHash \<Rightarrow>
   merge_error + (ObjectHash \<times> Commit)" where
  "FindMergeBase mgr order commit1SHA commit2SHA =
     (if \<not> Initialize mgr then Inl InitializeFailed
      else case GetCommit mgr commit1SHA of
        None \<Rightarrow> Inl (GetCommitFailed commit1SHA)
      | Some c1 \<Rightarrow>
         (case GetCommit mgr commit2SHA of
            None \<Rightarrow> Inl (GetCommitFailed commit2SHA)
          | Some c2 \<Rightarrow>
              if commonAncestors mgr commit1SHA commit2SHA = {} then Inl NoCommonAncestor
              else first_retrievable mgr order))"

definition FindMergeBases ::
  "CommitManager \<Rightarrow> ObjectHash list \<Rightarrow> ObjectHash \<Rightarrow> ObjectHash \<Rightarrow>
   merge_error + (ObjectHash \<times> Commit) list" where
  "FindMergeBases mgr order commit1SHA commit2SHA =
     (case FindMergeBase mgr order commit1SHA commit2SHA of
        Inl err \<Rightarrow> Inl err
      | Inr base \<Rightarrow> Inr [base])"

text \<open>A linear history of three commits, \<open>c0\<close> the parent of \<open>c1\<close> the parent of \<open>c2\<close>.\<close>

definition linear_history :: CommitManager where
  "linear_history =
     \<lparr>initialize_ok = True,
      objects =
        [(''c0'', \<lparr>TreeSHA = ''t0'', ParentSHAs = [], Author = ''T'', Committer = ''T'', Message = ''zero''\<rparr>),
         (''c1'', \<lparr>TreeSHA = ''t1'', ParentSHAs = [''c0''], Author = ''T'', Committer = ''T'', Message = ''one''\<rparr>),
         (''c2'', \<lparr>TreeSHA = ''t2'', ParentSHAs = [''c1''], Author = ''T'', Committer = ''T'', Message = ''two''\<rparr>)]\<rparr>"

section \<open>Whole-file content merge (pkg/merge/conflict.go)\<close>

text \<open>
  \<open>MergeContent(base, ours, theirs) ([]byte, bool)\<close>: the three comparisons are tried in the
  order of the source; the last branch returns \<open>nil, false\<close>.
\<close>

definition MergeContent :: "bytes \<Rightarrow> bytes \<Rightarrow> bytes \<Rightarrow> bytes \<times> bool" where
  "MergeContent base ours theirs =
     (if ours = theirs then (ours, True)
      else if base = ours then (theirs, True)
      else if base = theirs then (ours, True)
      else ([], False))"

section \<open>Conflict markers (pkg/merge/markers.go, pkg/merge/conflict.go)\<close>

definition ConflictMarkerStart :: string where
  "ConflictMarkerStart = ''<<<<<<<''"

definition ConflictMarkerSeparator :: string where
  "ConflictMarkerSeparator = ''=======''"

definition ConflictMarkerEnd :: string where
  "ConflictMarkerEnd = ''>>>>>>>''"

definition ConflictMarkerBase :: string where
  "ConflictMarkerBase = ''|||||||''"

text \<open>
  \<open>CreateConflictMarkers\<close> appends to a \<open>bytes.Buffer\<close>; each \<open>let\<close> below is one write
  (or one guarded write) of the source, in order.
\<close>

definition CreateConflictMarkers ::
  "bytes \<Rightarrow> bytes \<Rightarrow> bytes \<Rightarrow> string \<Rightarrow> string \<Rightarrow> bool \<Rightarrow> bytes" where
  "CreateConflictMarkers base ours theirs oursLabel theirsLabel diff3Style =
     (let result = ConflictMarkerStart @ '' '' @ oursLabel @ NL;
          result = result @ ours;
          result = (if \<not> HasSuffix ours NL then result @ NL else result);
          result =
            (if diff3Style \<and> length base > 0 then
               (let result = result @ ConflictMarkerBase @ '' base'' @ NL;
                    result = result @ base
                in if \<not> HasSuffix base NL then result @ NL else result)
             else result);
          result = result @ ConflictMarkerSeparator @ NL;
          result = result @ theirs;
          result = (if \<not> HasSuffix theirs NL then result @ NL else result)
      in result @ ConflictMarkerEnd @ '' '' @ theirsLabel @ NL)"

text \<open>The \<open>Conflict\<close> struct of the merge package.\<close>

record Conflict =
  Path :: string
  OurVersion :: bytes
  TheirVersion :: bytes
  BaseVersion :: bytes
  OurSHA :: ObjectHash
  TheirSHA :: ObjectHash
  BaseSHA :: ObjectHash

record ConflictMarker =
  Start :: string
  Middle :: string
  End :: string

definition DefaultConflictMarker :: "string \<Rightarrow> string \<Rightarrow> ConflictMarker" where
  "DefaultConflictMarker ourLabel theirLabel =
     \<lparr>Start = ''<<<<<<< '' @ ourLabel, Middle = ''======='', End = ''>>>>>>> '' @ theirLabel\<rparr>"

text \<open>
  \<open>ConflictResolver.createConflictMarkers\<close>. The abbreviation \<open>ObjectHash.Short().String()\<close>
  is defined outside the sources and is the parameter \<open>short\<close>.
\<close>

definition createConflictMarkers :: "(ObjectHash \<Rightarrow> string) \<Rightarrow> Conflict \<Rightarrow> bytes" where
  "createConflictMarkers short conflict =
     (let marker = DefaultConflictMarker ''HEAD'' (short (TheirSHA conflict));
          buf = Start marker;
          buf = buf @ NL;
          buf = buf @ OurVersion conflict;
          buf = (if length (OurVersion conflict) > 0 \<and> last (OurVersion conflict) \<noteq> CHR 0x0A
                 then buf @ NL else buf);
          buf = buf @ Middle marker;
          buf = buf @ NL;
          buf = buf @ TheirVersion conflict;
          buf = (if length (TheirVersion conflict) > 0 \<and> last (TheirVersion conflict) \<noteq> CHR 0x0A
                 then buf @ NL else buf);
          buf = buf @ End marker
      in buf @ NL)"

section \<open>Three-way tree merge (ThreeWayMerger, pkg/merge/squash.go)\<close>

text \<open>
  \<open>readBlobContent\<close> reads a blob through the repository; the callers below discard its
  error, which leaves the \<open>nil\<close> content. The blob store is the map \<open>blobs\<close>.
\<close>

definition readBlobContent :: "(ObjectHash \<rightharpoonup> bytes) \<Rightarrow> ObjectHash \<Rightarrow> bytes option" where
  "readBlobContent blobs h = blobs h"

definition blobOrNil :: "bytes option \<Rightarrow> bytes" where
  "blobOrNil r = (case r of None \<Rightarrow> [] | Some c \<Rightarrow> c)"

text \<open>
  \<open>createConflict\<close>: fields of an absent side keep their zero values. The constructor
  \<open>scpath.NewRelativePath\<close> is outside the sources and is the parameter \<open>rel\<close> (its error is
  discarded by the source).
\<close>

definition createConflict ::
  "(ObjectHash \<rightharpoonup> bytes) \<Rightarrow> (string \<Rightarrow> string) \<Rightarrow> string \<Rightarrow>
   TreeEntry option \<Rightarrow> TreeEntry option \<Rightarrow> TreeEntry option \<Rightarrow> Conflict" where
  "createConflict blobs rel path base ours theirs =
     (let conflict = \<lparr>Path = rel path, OurVersion = [], TheirVersion = [], BaseVersion = [],
                       OurSHA = [], TheirSHA = [], BaseSHA = []\<rparr>;
          conflict = (case base of None \<Rightarrow> conflict
                      | Some b \<Rightarrow> conflict\<lparr>BaseSHA := sha b,
                            BaseVersion := blobOrNil (readBlobContent blobs (sha b))\<rparr>);
          conflict = (case ours of None \<Rightarrow> conflict
                      | Some oe \<Rightarrow> conflict\<lparr>OurSHA := sha oe,
                            OurVersion := blobOrNil (readBlobContent blobs (sha oe))\<rparr>);
          conflict = (case theirs of None \<Rightarrow> conflict
                      | Some t \<Rightarrow> conflict\<lparr>TheirSHA := sha t,
                            TheirVersion := blobOrNil (readBlobContent blobs (sha t))\<rparr>)
      in conflict)"

text \<open>
  \<open>mergeEntry\<close>: the nine cases of the source in their order, then the catch-all conflict.
  A \<open>nil\<close> entry is \<open>None\<close>. The error result of the source is \<open>nil\<close> on every path and is
  left out.
\<close>

definition mergeEntry ::
  "(ObjectHash \<rightharpoonup> bytes) \<Rightarrow> (string \<Rightarrow> string) \<Rightarrow> string \<Rightarrow>
   TreeEntry option \<Rightarrow> TreeEntry option \<Rightarrow> TreeEntry option \<Rightarrow>
   TreeEntry option \<times> Conflict option" where
  "mergeEntry blobs rel path base ours theirs =
     (if base \<noteq> None \<and> ours \<noteq> None \<and> theirs \<noteq> None
         \<and> sha (the base) = sha (the ours) \<and> sha (the base) = sha (the theirs)
      then (ours, None)
      else if base \<noteq> None \<and> ours \<noteq> None \<and> theirs \<noteq> None
         \<and> sha (the base) = sha (the theirs) \<and> sha (the base) \<noteq> sha (the ours)
      then (ours, None)
      else if base \<noteq> None \<and> ours \<noteq> None \<and> theirs \<noteq> None
         \<and> sha (the base) = sha (the ours) \<and> sha (the base) \<noteq> sha (the theirs)
      then (theirs, None)
      else if ours \<noteq> None \<and> theirs \<noteq> None \<and> sha (the ours) = sha (the theirs)
      then (ours, None)
      else if base = None \<and> ours \<noteq> None \<and> theirs \<noteq> None
      then (if sha (the ours) = sha (the theirs) then (ours, None)
            else (ours, Some (createConflict blobs rel path base ours theirs)))
      else if base \<noteq> None \<and> ours = None \<and> theirs \<noteq> None
         \<and> sha (the base) = sha (the theirs)
      then (None, None)
      else if base \<noteq> None \<and> ours \<noteq> None \<and> theirs = None
         \<and> sha (the base) = sha (the ours)
      then (None, None)
      else if base = None \<and> ours \<noteq> None \<and> theirs = None
      then (ours, None)
      else if base = None \<and> ours = None \<and> theirs \<noteq> None
      then (theirs, None)
      else (ours, Some (createConflict blobs rel path base ours theirs)))"

text \<open>
  \<open>treeToMap\<close>: a Go map from entry name to entry, filled in entry order, so a later entry
  with the same name replaces an earlier one. \<open>treeToMap_from\<close> is the loop, with the map
  built so far.
\<close>

fun treeToMap_from :: "(string \<rightharpoonup> TreeEntry) \<Rightarrow> Tree \<Rightarrow> (string \<rightharpoonup> TreeEntry)" where
  "treeToMap_from entries [] = entries"
| "treeToMap_from entries (entry # rest) = treeToMap_from (entries(name entry \<mapsto> entry)) rest"

definition treeToMap :: "Tree \<Rightarrow> (string \<rightharpoonup> TreeEntry)" where
  "treeToMap t = treeToMap_from Map.empty t"

text \<open>
  The loop of \<open>mergeTrees\<close> over the keys of \<open>allPaths\<close>. Go leaves the iteration order of a
  map unspecified; the order the run takes is the list the loop is given.
\<close>

fun mergeTrees_loop ::
  "(ObjectHash \<rightharpoonup> bytes) \<Rightarrow> (string \<Rightarrow> string) \<Rightarrow>
   (string \<rightharpoonup> TreeEntry) \<Rightarrow> (string \<rightharpoonup> TreeEntry) \<Rightarrow> (string \<rightharpoonup> TreeEntry) \<Rightarrow>
   string list \<Rightarrow> TreeEntry list \<Rightarrow> Conflict list \<Rightarrow> TreeEntry list \<times> Conflict list" where
  "mergeTrees_loop blobs rel baseEntries ourEntries theirEntries [] mergedEntries conflicts =
     (mergedEntries, conflicts)"
| "mergeTrees_loop blobs rel baseEntries ourEntries theirEntries (path # paths) mergedEntries conflicts =
     (let (mergedEntry, conflict) =
            mergeEntry blobs rel path (baseEntries path) (ourEntries path) (theirEntries path);
          conflicts = (case conflict of None \<Rightarrow> conflicts | Some c \<Rightarrow> conflicts @ [c]);
          mergedEntries = (case mergedEntry of None \<Rightarrow> mergedEntries | Some e \<Rightarrow> mergedEntries @ [e])
      in mergeTrees_loop blobs rel baseEntries ourEntries theirEntries paths mergedEntries conflicts)"

text \<open>The key set of \<open>allPaths\<close>.\<close>

definition allPaths :: "Tree \<Rightarrow> Tree \<Rightarrow> Tree \<Rightarrow> string set" where
  "allPaths base ours theirs =
     dom (treeToMap base) \<union> dom (treeToMap ours) \<union> dom (treeToMap theirs)"

text \<open>
  \<open>mergeTrees\<close> with the iteration order \<open>order\<close> of \<open>allPaths\<close>. The result is the entry
  list handed to \<open>tree.NewTree\<close> (defined outside the sources) and the conflicts; the error
  result is always \<open>nil\<close>.
\<close>

definition mergeTrees ::
  "(ObjectHash \<rightharpoonup> bytes) \<Rightarrow> (string \<Rightarrow> string) \<Rightarrow> string list \<Rightarrow>
   Tree \<Rightarrow> Tree \<Rightarrow> Tree \<Rightarrow> TreeEntry list \<times> Conflict list" where
  "mergeTrees blobs rel order base ours theirs =
     mergeTrees_loop blobs rel (treeToMap base) (treeToMap ours) (treeToMap theirs) order [] []"

section \<open>Conflict stages in the index (pkg/index/conflict.go)\<close>

text \<open>
  Modelled from the spec: the index entry and the index of \<open>pkg/index\<close>, whose declarations
  are not among the sources. An entry has a stage (0 to 3), a path and a blob digest (the
  mode and the file metadata play no part here); the index holds its entries in a slice.
\<close>

record Entry =
  Stage :: nat
  EntryPath :: string
  BlobHash :: ObjectHash

record Index =
  Entries :: "Entry list"

datatype index_error = NoConflictForPath string

text \<open>
  Modelled from the spec: \<open>Index.sort\<close>, \<open>Index.Remove\<close> and \<open>Index.Add\<close>, which
  \<open>AddConflict\<close> and \<open>ResolveConflict\<close> call and which are not among the sources. The
  specification keeps the entries sorted by (path, stage) with at most one stage-0 entry per
  path; \<open>AddConflict\<close> documents \<open>Remove\<close> as removing any existing normal (stage 0) entry of
  the path, and the specification has \<open>Add\<close> replace the entry of the same path and stage.
  \<open>RelativePath.Normalize\<close> is outside the sources too and is the parameter \<open>Normalize\<close>;
  paths compare as byte strings.
\<close>

definition index_sort :: "Entry list \<Rightarrow> Entry list" where
  "index_sort es = sort_key (\<lambda>e. (EntryPath e, Stage e)) es"

definition Remove :: "(string \<Rightarrow> string) \<Rightarrow> Index \<Rightarrow> string \<Rightarrow> Index" where
  "Remove Normalize idx path =
     idx\<lparr>Entries := filter (\<lambda>entry. \<not> (Normalize (EntryPath entry) = Normalize path \<and> Stage entry = 0))
                          (Entries idx)\<rparr>"

definition Add :: "(string \<Rightarrow> string) \<Rightarrow> Index \<Rightarrow> Entry \<Rightarrow> Index" where
  "Add Normalize idx entry =
     idx\<lparr>Entries := index_sort
        (filter (\<lambda>e. \<not> (Normalize (EntryPath e) = Normalize (EntryPath entry) \<and> Stage e = Stage entry))
                (Entries idx) @ [entry])\<rparr>"

text \<open>\<open>RemoveConflict\<close>: the filtering loop over \<open>idx.Entries\<close>.\<close>

definition RemoveConflict :: "(string \<Rightarrow> string) \<Rightarrow> Index \<Rightarrow> string \<Rightarrow> Index" where
  "RemoveConflict Normalize idx path =
     (let normalizedPath = Normalize path
      in idx\<lparr>Entries :=
            filter (\<lambda>entry. \<not> (Normalize (EntryPath entry) = normalizedPath
                               \<and> Stage entry \<ge> 1 \<and> Stage entry \<le> 3))
                   (Entries idx)\<rparr>)"

text \<open>
  \<open>AddConflict\<close>. The test \<open>ObjectHash.IsZero\<close> is outside the sources and is the parameter
  \<open>IsZero\<close>. The new entries carry the path as given, not the normalized one.
\<close>

definition AddConflict ::
  "(string \<Rightarrow> string) \<Rightarrow> (ObjectHash \<Rightarrow> bool) \<Rightarrow> Index \<Rightarrow> string \<Rightarrow>
   ObjectHash \<Rightarrow> ObjectHash \<Rightarrow> ObjectHash \<Rightarrow> Index" where
  "AddConflict Normalize IsZero idx path base ours theirs =
     (let normalizedPath = Normalize path;
          idx = Remove Normalize idx normalizedPath;
          idx = RemoveConflict Normalize idx normalizedPath;
          idx = (if \<not> IsZero base
                 then idx\<lparr>Entries := Entries idx @ [\<lparr>Stage = 1, EntryPath = path, BlobHash = base\<rparr>]\<rparr>
                 else idx);
          idx = (if \<not> IsZero ours
                 then idx\<lparr>Entries := Entries idx @ [\<lparr>Stage = 2, EntryPath = path, BlobHash = ours\<rparr>]\<rparr>
                 else idx);
          idx = (if \<not> IsZero theirs
                 then idx\<lparr>Entries := Entries idx @ [\<lparr>Stage = 3, EntryPath = path, BlobHash = theirs\<rparr>]\<rparr>
                 else idx)
      in idx\<lparr>Entries := index_sort (Entries idx)\<rparr>)"

text \<open>\<open>IsConflicted\<close>: true at the first entry of the path with a stage above 0.\<close>

definition IsConflicted :: "(string \<Rightarrow> string) \<Rightarrow> Index \<Rightarrow> string \<Rightarrow> bool" where
  "IsConflicted Normalize idx path =
     (let normalizedPath = Normalize path
      in list_ex (\<lambda>entry. Normalize (EntryPath entry) = normalizedPath \<and> Stage entry > 0)
                 (Entries idx))"

definition ResolveConflict ::
  "(string \<Rightarrow> string) \<Rightarrow> Index \<Rightarrow> string \<Rightarrow> ObjectHash \<Rightarrow> index_error + Index" where
  "ResolveConflict Normalize idx path resolvedHash =
     (if \<not> IsConflicted Normalize idx path then Inl (NoConflictForPath path)
      else
        (let idx = RemoveConflict Normalize idx path;
             resolvedEntry = \<lparr>Stage = 0, EntryPath = path, BlobHash = resolvedHash\<rparr>
         in Inr (Add Normalize idx resolvedEntry)))"

text \<open>The entries an index holds for a path at one stage, in index order.\<close>

definition stage_entries :: "(string \<Rightarrow> string) \<Rightarrow> Index \<Rightarrow> string \<Rightarrow> nat \<Rightarrow> Entry list" where
  "stage_entries Normalize idx path k =
     filter (\<lambda>e. Normalize (EntryPath e) = Normalize path \<and> Stage e = k) (Entries idx)"

text \<open>An index with two staged files.\<close>

definition two_files :: Index where
  "two_files = \<lparr>Entries = [\<lparr>Stage = 0, EntryPath = ''a.txt'', BlobHash = ''8''\<rparr>,
                           \<lparr>Stage = 0, EntryPath = ''b.txt'', BlobHash = ''9''\<rparr>]\<rparr>"

section \<open>File history (pkg/history/file_walker.go, pkg/history/tree_search.go)\<close>

text \<open>
  Modelled from the spec: the repository handle and its object store, which are not among the
  sources. Commits, trees and blobs are read by digest (\<open>ReadCommitObject\<close>,
  \<open>ReadTreeObject\<close>, \<open>ReadBlobObject\<close>) and a read fails for a digest the store does not
  hold. \<open>init_ok\<close> says whether the commit manager of the repository initializes and
  \<open>write_ok\<close> whether the store accepts a write.
\<close>

record SourceRepository =
  init_ok :: bool
  stored_commits :: "(ObjectHash \<times> Commit) list"
  stored_trees :: "ObjectHash \<rightharpoonup> Tree"
  stored_blobs :: "ObjectHash \<rightharpoonup> bytes"
  write_ok :: bool

definition ReadCommitObject :: "SourceRepository \<Rightarrow> ObjectHash \<Rightarrow> Commit option" where
  "ReadCommitObject repo h = map_of (stored_commits repo) h"

definition ReadTreeObject :: "SourceRepository \<Rightarrow> ObjectHash \<Rightarrow> Tree option" where
  "ReadTreeObject repo h = stored_trees repo h"

text \<open>
  The errors of the history walk: the cancellation of the context and a failed read. The
  context is the flag \<open>cancelled\<close>, read where the source polls \<open>ctx.Done()\<close>.
\<close>

datatype history_error = Cancelled | ReadTreeFailed ObjectHash

text \<open>\<open>strings.TrimPrefix\<close> and \<open>strings.Split\<close> (with a one-byte separator) of the Go library.\<close>

fun TrimPrefix :: "string \<Rightarrow> string \<Rightarrow> string" where
  "TrimPrefix s prefix =
     (if take (length prefix) s = prefix then drop (length prefix) s else s)"

fun Split :: "string \<Rightarrow> char \<Rightarrow> string list" where
  "Split [] sep = [[]]"
| "Split (c # cs) sep =
     (if c = sep then [] # Split cs sep
      else (case Split cs sep of w # ws \<Rightarrow> (c # w) # ws | [] \<Rightarrow> [[c]]))"

text \<open>
  \<open>findFileInTreeRecursive\<close>. The loop over the entries returns at the first entry with the
  wanted name, which is what \<open>find\<close> yields.
\<close>

fun findFileInTreeRecursive ::
  "bool \<Rightarrow> SourceRepository \<Rightarrow> Tree \<Rightarrow> string list \<Rightarrow> history_error + ObjectHash option" where
  "findFileInTreeRecursive cancelled repo t [] =
     (if cancelled then Inl Cancelled else Inr None)"
| "findFileInTreeRecursive cancelled repo t (targetName # rest) =
     (if cancelled then Inl Cancelled
      else if targetName = [] then Inr None
      else case find (\<lambda>entry. name entry = targetName) t of
             None \<Rightarrow> Inr None
           | Some entry \<Rightarrow>
               if length (targetName # rest) = 1 then
                 (if IsFile entry then Inr (Some (sha entry)) else Inr None)
               else if IsDirectory entry then
                 (case ReadTreeObject repo (sha entry) of
                    None \<Rightarrow> Inl (ReadTreeFailed (sha entry))
                  | Some subTree \<Rightarrow> findFileInTreeRecursive cancelled repo subTree rest)
               else Inr None)"

text \<open>
  \<open>FindFileInTree\<close>; \<open>filepath.Clean\<close> of the Go library is the parameter \<open>Clean\<close> and the
  separator is \<open>/\<close>.
\<close>

definition FindFileInTree ::
  "(string \<Rightarrow> string) \<Rightarrow> bool \<Rightarrow> SourceRepository \<Rightarrow> Tree \<Rightarrow> string \<Rightarrow>
   history_error + ObjectHash option" where
  "FindFileInTree Clean cancelled repo t filePath =
     (if cancelled then Inl Cancelled
      else
        (let filePath = Clean filePath;
             filePath = TrimPrefix filePath ''/''
         in if filePath = [] \<or> filePath = ''.'' then Inr None
            else findFileInTreeRecursive cancelled repo t (Split filePath (CHR ''/''))))"

definition findFileInCommit ::
  "(string \<Rightarrow> string) \<Rightarrow> bool \<Rightarrow> SourceRepository \<Rightarrow> Commit \<Rightarrow> string \<Rightarrow>
   history_error + ObjectHash option" where
  "findFileInCommit Clean cancelled repo c filePath =
     (if cancelled then Inl Cancelled
      else case ReadTreeObject repo (TreeSHA c) of
             None \<Rightarrow> Inl (ReadTreeFailed (TreeSHA c))
           | Some treeObj \<Rightarrow> FindFileInTree Clean cancelled repo treeObj filePath)"

text \<open>
  The loop of \<open>commitModifiesFile\<close> over the parents; its value is what the function
  returns, either the early \<open>return true\<close> for an unreadable parent or \<open>hasChanges\<close>.
\<close>

fun parents_loop ::
  "(string \<Rightarrow> string) \<Rightarrow> bool \<Rightarrow> SourceRepository \<Rightarrow> string \<Rightarrow> ObjectHash option \<Rightarrow>
   ObjectHash list \<Rightarrow> bool" where
  "parents_loop Clean cancelled repo filePath currentBlob [] = False"
| "parents_loop Clean cancelled repo filePath currentBlob (parentSHA # rest) =
     (case ReadCommitObject repo parentSHA of
        None \<Rightarrow> True
      | Some parentCommit \<Rightarrow>
          (case findFileInCommit Clean cancelled repo parentCommit filePath of
             Inl err \<Rightarrow> parents_loop Clean cancelled repo filePath currentBlob rest
           | Inr parentBlob \<Rightarrow>
               if currentBlob \<noteq> None \<and> parentBlob = None then True
               else if currentBlob = None \<and> parentBlob \<noteq> None then True
               else if currentBlob \<noteq> None \<and> parentBlob \<noteq> None
                       \<and> the currentBlob \<noteq> the parentBlob then True
               else parents_loop Clean cancelled repo filePath currentBlob rest))"

definition commitModifiesFile ::
  "(string \<Rightarrow> string) \<Rightarrow> bool \<Rightarrow> SourceRepository \<Rightarrow> Commit \<Rightarrow> string \<Rightarrow>
   history_error + bool" where
  "commitModifiesFile Clean cancelled repo c filePath =
     (if cancelled then Inl Cancelled
      else case findFileInCommit Clean cancelled repo c filePath of
             Inl err \<Rightarrow> Inl err
           | Inr currentBlob \<Rightarrow>
               if length (ParentSHAs c) = 0 then Inr (currentBlob \<noteq> None)
               else Inr (parents_loop Clean cancelled repo filePath currentBlob (ParentSHAs c)))"

text \<open>
  \<open>FilterByFile\<close>: the loop with the list \<open>filtered\<close> built so far, then the function. The
  result is the pair of the list and the error the source returns.
\<close>

fun FilterByFile_loop ::
  "(string \<Rightarrow> string) \<Rightarrow> bool \<Rightarrow> SourceRepository \<Rightarrow> string \<Rightarrow> Commit list \<Rightarrow>
   Commit list \<Rightarrow> Commit list \<times> history_error option" where
  "FilterByFile_loop Clean cancelled repo filePath [] filtered = (filtered, None)"
| "FilterByFile_loop Clean cancelled repo filePath (c # rest) filtered =
     (if cancelled then (filtered, Some Cancelled)
      else case commitModifiesFile Clean cancelled repo c filePath of
             Inl err \<Rightarrow> FilterByFile_loop Clean cancelled repo filePath rest filtered
           | Inr modified \<Rightarrow>
               if modified
               then FilterByFile_loop Clean cancelled repo filePath rest (filtered @ [c])
               else FilterByFile_loop Clean cancelled repo filePath rest filtered)"

definition FilterByFile ::
  "(string \<Rightarrow> string) \<Rightarrow> bool \<Rightarrow> SourceRepository \<Rightarrow> Commit list \<Rightarrow> string \<Rightarrow>
   Commit list \<times> history_error option" where
  "FilterByFile Clean cancelled repo commitList filePath =
     (if filePath = [] then (commitList, None)
      else
        (let filePath = Clean filePath;
             filePath = TrimPrefix filePath ''/''
         in FilterByFile_loop Clean cancelled repo filePath commitList []))"


text \<open>A history of three commits over a file \<open>src/main.go\<close>, changed by the second.\<close>

definition history_repo :: SourceRepository where
  "history_repo =
     \<lparr>init_ok = True,
      stored_commits =
        [(''c0'', \<lparr>TreeSHA = ''t0'', ParentSHAs = [], Author = ''T'', Committer = ''T'', Message = ''zero''\<rparr>),
         (''c1'', \<lparr>TreeSHA = ''t1'', ParentSHAs = [''c0''], Author = ''T'', Committer = ''T'', Message = ''one''\<rparr>),
         (''c2'', \<lparr>TreeSHA = ''t2'', ParentSHAs = [''c1''], Author = ''T'', Committer = ''T'', Message = ''two''\<rparr>)],
      stored_trees =
        [''t0'' \<mapsto> [\<lparr>kind = DirectoryEntry, name = ''src'', sha = ''s0''\<rparr>],
         ''t1'' \<mapsto> [\<lparr>kind = DirectoryEntry, name = ''src'', sha = ''s1''\<rparr>],
         ''t2'' \<mapsto> [\<lparr>kind = FileEntry, name = ''README'', sha = ''b9''\<rparr>,
                     \<lparr>kind = DirectoryEntry, name = ''src'', sha = ''s1''\<rparr>],
         ''s0'' \<mapsto> [\<lparr>kind = FileEntry, name = ''main.go'', sha = ''b1''\<rparr>],
         ''s1'' \<mapsto> [\<lparr>kind = FileEntry, name = ''main.go'', sha = ''b2''\<rparr>]],
      stored_blobs = Map.empty,
      write_ok = True\<rparr>"

section \<open>Merge commits (ThreeWayMerger, RecursiveMerger, SquashMerger)\<close>

text \<open>
  The configuration, result and context types of the merge package. The message fields of
  \<open>Config\<close> and \<open>MergeResult\<close> are \<open>ConfigMessage\<close> and \<open>ResultMessage\<close>, since \<open>Message\<close>
  is the field of the commit. The Go context of \<open>MergeContext\<close> plays no part in the
  functions below.
\<close>

datatype Strategy = StrategyRecursive | StrategyOctopus | StrategyOurs | StrategySubtree

datatype MergeMode = ModeDefault | ModeNoCommit | ModeSquash | ModeFastForwardOnly | ModeNoFastForward

datatype ConflictResolution = ConflictFail | ConflictOurs | ConflictTheirs | ConflictManual

record Config =
  Strategy :: Strategy
  Mode :: MergeMode
  ConflictResolution :: ConflictResolution
  ConfigMessage :: string
  AllowUnrelatedHistories :: bool
  Verbose :: bool

record MergeResult =
  Success :: bool
  FastForward :: bool
  CommitSHA :: ObjectHash
  Conflicts :: "string list"
  FilesChanged :: int
  Insertions :: int
  Deletions :: int
  ResultMessage :: string

record MergeContext =
  OurCommit :: Commit
  TheirCommits :: "Commit list"
  BaseCommit :: "Commit option"
  Config :: Config

text \<open>
  Functions these mergers call that are defined outside the sources: the digest of a commit
  (\<open>Commit.Hash\<close>, which may fail) and of a tree (computed by \<open>WriteObject\<close>), the
  abbreviation of a digest, \<open>scpath.NewRelativePath\<close>, \<open>tree.NewTree\<close>, the decimal
  formatting of \<open>fmt.Sprintf\<close>, and whether the index manager initializes.
\<close>

record Externals =
  HashCommit :: "Commit \<Rightarrow> ObjectHash option"
  HashTree :: "Tree \<Rightarrow> ObjectHash"
  Short :: "ObjectHash \<Rightarrow> string"
  NewRelativePath :: "string \<Rightarrow> string"
  NewTree :: "TreeEntry list \<Rightarrow> Tree"
  FormatInt :: "nat \<Rightarrow> string"
  IndexInitialize :: bool

text \<open>The orders the two map iterations of a run take.\<close>

record Iteration =
  commonAncestorsOrder :: "ObjectHash list"
  allPathsOrder :: "string list"

text \<open>
  The errors of the mergers. The source wraps an inner error in a message; the model keeps
  the inner error.
\<close>

datatype merger_error =
    CannotMerge
  | IndexOutOfRange
  | HashFailed
  | NoMergeBase merge_error
  | ReadTreeObjectFailed ObjectHash
  | WriteObjectFailed
  | UpdateIndexFailed
  | CommitManagerInitializeFailed

text \<open>
  The commit manager of a repository reads the repository's commits. \<open>WriteObject\<close> stores
  an object under its digest and returns the digest.
\<close>

definition NewManager :: "SourceRepository \<Rightarrow> CommitManager" where
  "NewManager repo = \<lparr>initialize_ok = init_ok repo, objects = stored_commits repo\<rparr>"

definition WriteTree ::
  "Externals \<Rightarrow> SourceRepository \<Rightarrow> Tree \<Rightarrow> merger_error + (ObjectHash \<times> SourceRepository)" where
  "WriteTree ext repo t =
     (if \<not> write_ok repo then Inl WriteObjectFailed
      else Inr (HashTree ext t, repo\<lparr>stored_trees := (stored_trees repo)(HashTree ext t \<mapsto> t)\<rparr>))"

definition WriteCommit ::
  "Externals \<Rightarrow> SourceRepository \<Rightarrow> Commit \<Rightarrow> merger_error + (ObjectHash \<times> SourceRepository)" where
  "WriteCommit ext repo c =
     (case HashCommit ext c of
        None \<Rightarrow> Inl WriteObjectFailed
      | Some h \<Rightarrow>
          if \<not> write_ok repo then Inl WriteObjectFailed
          else Inr (h, repo\<lparr>stored_commits := (h, c) # stored_commits repo\<rparr>))"

text \<open>The zero value of \<open>MergeResult\<close>, from which the source builds its results.\<close>

definition zeroResult :: MergeResult where
  "zeroResult = \<lparr>Success = False, FastForward = False, CommitSHA = [], Conflicts = [],
                 FilesChanged = 0, Insertions = 0, Deletions = 0, ResultMessage = []\<rparr>"

definition ThreeWayMerger_CanMerge :: "MergeContext \<Rightarrow> bool" where
  "ThreeWayMerger_CanMerge mergeCtx =
     (length (TheirCommits mergeCtx) = 1 \<and> BaseCommit mergeCtx \<noteq> None)"

text \<open>\<open>updateIndex\<close> initializes the index manager and does nothing else.\<close>

definition updateIndex :: "Externals \<Rightarrow> Tree \<Rightarrow> merger_error option" where
  "updateIndex ext mergedTree = (if \<not> IndexInitialize ext then Some UpdateIndexFailed else None)"

text \<open>
  \<open>createMergeCommit\<close>: the merged tree is written, then the commit with the parents
  \<open>[ourSHA, theirSHA]\<close>. \<open>TheirCommits[0]\<close> on an empty slice panics.
\<close>

definition createMergeCommit ::
  "Externals \<Rightarrow> SourceRepository \<Rightarrow> MergeContext \<Rightarrow> Tree \<Rightarrow>
   merger_error + (Commit \<times> SourceRepository)" where
  "createMergeCommit ext repo mergeCtx mergedTree =
     (case WriteTree ext repo mergedTree of
        Inl err \<Rightarrow> Inl err
      | Inr (treeSHA, repo) \<Rightarrow>
     (case HashCommit ext (OurCommit mergeCtx) of
        None \<Rightarrow> Inl HashFailed
      | Some ourSHA \<Rightarrow>
     (case TheirCommits mergeCtx of
        [] \<Rightarrow> Inl IndexOutOfRange
      | theirCommit # others \<Rightarrow>
     (case HashCommit ext theirCommit of
        None \<Rightarrow> Inl HashFailed
      | Some theirSHA \<Rightarrow>
         (let message = ConfigMessage (Config mergeCtx);
              message = (if message = [] then ''Merge commit '' @ Short ext theirSHA @ '' into HEAD''
                         else message);
              mergeCommit = \<lparr>TreeSHA = treeSHA, ParentSHAs = [ourSHA, theirSHA],
                               Author = Author (OurCommit mergeCtx),
                               Committer = Committer (OurCommit mergeCtx),
                               Message = message\<rparr>
          in case WriteCommit ext repo mergeCommit of
               Inl err \<Rightarrow> Inl err
             | Inr (commitSHA, repo) \<Rightarrow>
                 if \<not> Initialize (NewManager repo) then Inl CommitManagerInitializeFailed
                 else Inr (mergeCommit, repo))))))"

text \<open>\<open>ThreeWayMerger.Merge\<close>.\<close>

definition ThreeWayMerger_Merge ::
  "Externals \<Rightarrow> Iteration \<Rightarrow> SourceRepository \<Rightarrow> MergeContext \<Rightarrow>
   merger_error + (MergeResult \<times> SourceRepository)" where
  "ThreeWayMerger_Merge ext iter repo mergeCtx =
     (if \<not> ThreeWayMerger_CanMerge mergeCtx then Inl CannotMerge
      else
        (let ourCommit = OurCommit mergeCtx;
             theirCommit = hd (TheirCommits mergeCtx);
             baseCommit = the (BaseCommit mergeCtx)
         in case ReadTreeObject repo (TreeSHA ourCommit) of
              None \<Rightarrow> Inl (ReadTreeObjectFailed (TreeSHA ourCommit))
            | Some ourTree \<Rightarrow>
           (case ReadTreeObject repo (TreeSHA theirCommit) of
              None \<Rightarrow> Inl (ReadTreeObjectFailed (TreeSHA theirCommit))
            | Some theirTree \<Rightarrow>
           (case ReadTreeObject repo (TreeSHA baseCommit) of
              None \<Rightarrow> Inl (ReadTreeObjectFailed (TreeSHA baseCommit))
            | Some baseTree \<Rightarrow>
               (let (mergedEntries, conflicts) =
                      mergeTrees (stored_blobs repo) (NewRelativePath ext) (allPathsOrder iter)
                        baseTree ourTree theirTree;
                    mergedTree = NewTree ext mergedEntries;
                    HasConflicts = (length conflicts > 0)
                in if HasConflicts \<and> ConflictResolution (Config mergeCtx) = ConflictFail
                   then Inr (zeroResult\<lparr>Success := False,
                               Conflicts := map Path conflicts,
                               ResultMessage := ''Merge conflicts in '' @ FormatInt ext (length conflicts)
                                                @ '' file(s)''\<rparr>, repo)
                   else
                     (let result = zeroResult\<lparr>Success := \<not> HasConflicts, FastForward := False\<rparr>;
                          result = (if HasConflicts then result\<lparr>Conflicts := map Path conflicts\<rparr>
                                    else result)
                      in if Mode (Config mergeCtx) = ModeNoCommit
                         then (case updateIndex ext mergedTree of
                                 Some err \<Rightarrow> Inl err
                               | None \<Rightarrow>
                                   Inr (result\<lparr>ResultMessage :=
                                          ''Changes staged but not committed (--no-commit)''\<rparr>, repo))
                         else
                           (case createMergeCommit ext repo mergeCtx mergedTree of
                              Inl err \<Rightarrow> Inl err
                            | Inr (mergeCommit, repo) \<Rightarrow>
                               (case HashCommit ext mergeCommit of
                                  None \<Rightarrow> Inl HashFailed
                                | Some commitSHA \<Rightarrow>
                                    Inr (result\<lparr>CommitSHA := commitSHA,
                                           ResultMessage := ''Merge commit '' @ Short ext commitSHA
                                                            @ '' created''\<rparr>, repo)))))))))"

text \<open>\<open>RecursiveMerger.Merge\<close> (pkg/merge/recursive.go); the verbose warning is not modelled.\<close>

definition RecursiveMerger_CanMerge :: "MergeContext \<Rightarrow> bool" where
  "RecursiveMerger_CanMerge mergeCtx = (length (TheirCommits mergeCtx) = 1)"

definition RecursiveMerger_Merge ::
  "Externals \<Rightarrow> Iteration \<Rightarrow> SourceRepository \<Rightarrow> MergeContext \<Rightarrow>
   merger_error + (MergeResult \<times> SourceRepository)" where
  "RecursiveMerger_Merge ext iter repo mergeCtx =
     (if \<not> RecursiveMerger_CanMerge mergeCtx then Inl CannotMerge
      else
        (let ourCommit = OurCommit mergeCtx;
             theirCommit = hd (TheirCommits mergeCtx)
         in case HashCommit ext ourCommit of
              None \<Rightarrow> Inl HashFailed
            | Some ourSHA \<Rightarrow>
           (case HashCommit ext theirCommit of
              None \<Rightarrow> Inl HashFailed
            | Some theirSHA \<Rightarrow>
               (let found = FindMergeBases (NewManager repo) (commonAncestorsOrder iter)
                              ourSHA theirSHA
                in if isl found \<and> \<not> AllowUnrelatedHistories (Config mergeCtx)
                   then Inl (NoMergeBase (projl found))
                   else
                     (let mergeBases = (case found of Inl err \<Rightarrow> [] | Inr bases \<Rightarrow> bases);
                          baseCommit = BaseCommit mergeCtx;
                          baseCommit = (if baseCommit = None \<and> length mergeBases > 0
                                        then Some (snd (hd mergeBases)) else baseCommit);
                          updatedCtx = \<lparr>OurCommit = ourCommit,
                                        TheirCommits = TheirCommits mergeCtx,
                                        BaseCommit = baseCommit,
                                        Config = Config mergeCtx\<rparr>
                      in ThreeWayMerger_Merge ext iter repo updatedCtx)))))"

text \<open>\<open>SquashMerger.Merge\<close> (pkg/merge/squash.go).\<close>

definition SquashMerger_CanMerge :: "MergeContext \<Rightarrow> bool" where
  "SquashMerger_CanMerge mergeCtx =
     (length (TheirCommits mergeCtx) = 1 \<and> Mode (Config mergeCtx) = ModeSquash)"

definition SquashMerger_Merge ::
  "Externals \<Rightarrow> Iteration \<Rightarrow> SourceRepository \<Rightarrow> MergeContext \<Rightarrow>
   merger_error + (MergeResult \<times> SourceRepository)" where
  "SquashMerger_Merge ext iter repo mergeCtx =
     (if \<not> SquashMerger_CanMerge mergeCtx then Inl CannotMerge
      else
        (let theirCommit = hd (TheirCommits mergeCtx);
             squashConfig = (Config mergeCtx)\<lparr>Mode := ModeNoCommit\<rparr>;
             squashCtx = \<lparr>OurCommit = OurCommit mergeCtx, TheirCommits = TheirCommits mergeCtx,
                          BaseCommit = BaseCommit mergeCtx, Config = squashConfig\<rparr>
         in case RecursiveMerger_Merge ext iter repo squashCtx of
              Inl err \<Rightarrow> Inl err
            | Inr (result, repo) \<Rightarrow>
                if \<not> Success result then Inr (result, repo)
                else
                  (case HashCommit ext (OurCommit mergeCtx) of
                     None \<Rightarrow> Inl HashFailed
                   | Some ourSHA \<Rightarrow>
                  (case HashCommit ext theirCommit of
                     None \<Rightarrow> Inl HashFailed
                   | Some theirSHA \<Rightarrow>
                      (let message = ConfigMessage (Config mergeCtx);
                           message = (if message = []
                                      then ''Squash merge of '' @ Short ext theirSHA
                                           @ [CHR 0x0A, CHR 0x0A] @ ''Original commit message:''
                                           @ [CHR 0x0A] @ Message theirCommit @ [CHR 0x0A]
                                      else message);
                           squashCommit = \<lparr>TreeSHA = TreeSHA theirCommit, ParentSHAs = [ourSHA],
                                             Author = Author (OurCommit mergeCtx),
                                             Committer = Committer (OurCommit mergeCtx),
                                             Message = message\<rparr>
                       in case WriteCommit ext repo squashCommit of
                            Inl err \<Rightarrow> Inl err
                          | Inr (commitSHA, repo) \<Rightarrow>
                              Inr (zeroResult\<lparr>Success := True, FastForward := False,
                                     CommitSHA := commitSHA,
                                     ResultMessage := ''Squash merge of '' @ Short ext theirSHA
                                                      @ '' into '' @ Short ext ourSHA\<rparr>, repo))))))"


text \<open>
  A small repository: \<open>base\<close> has the file \<open>f\<close>; \<open>ours\<close> adds \<open>g\<close>; \<open>theirs\<close> changes \<open>f\<close>.
  Commits are keyed by their message and trees by the digests of their entries, so that the
  examples can be read.
\<close>

definition squash_ext :: Externals where
  "squash_ext =
     \<lparr>HashCommit = (\<lambda>c. Some (Message c)),
      HashTree = (\<lambda>t. concat (map sha t)),
      Short = take 7,
      NewRelativePath = (\<lambda>p. p),
      NewTree = (\<lambda>entries. entries),
      FormatInt = (\<lambda>n. replicate n (CHR ''I'')),
      IndexInitialize = True\<rparr>"

definition squash_repo :: SourceRepository where
  "squash_repo =
     \<lparr>init_ok = True,
      stored_commits =
        [(''base'', \<lparr>TreeSHA = ''t0'', ParentSHAs = [], Author = ''T'', Committer = ''T'', Message = ''base''\<rparr>),
         (''ours'', \<lparr>TreeSHA = ''t1'', ParentSHAs = [''base''], Author = ''T'', Committer = ''T'', Message = ''ours''\<rparr>),
         (''theirs'', \<lparr>TreeSHA = ''t2'', ParentSHAs = [''base''], Author = ''U'', Committer = ''U'', Message = ''theirs''\<rparr>)],
      stored_trees =
        [''t0'' \<mapsto> [\<lparr>kind = FileEntry, name = ''f'', sha = ''1''\<rparr>],
         ''t1'' \<mapsto> [\<lparr>kind = FileEntry, name = ''f'', sha = ''1''\<rparr>,
                     \<lparr>kind = FileEntry, name = ''g'', sha = ''2''\<rparr>],
         ''t2'' \<mapsto> [\<lparr>kind = FileEntry, name = ''f'', sha = ''3''\<rparr>]],
      stored_blobs = Map.empty,
      write_ok = True\<rparr>"

definition squash_ctx :: MergeContext where
  "squash_ctx =
     \<lparr>OurCommit = \<lparr>TreeSHA = ''t1'', ParentSHAs = [''base''], Author = ''T'', Committer = ''T'', Message = ''ours''\<rparr>,
      TheirCommits = [\<lparr>TreeSHA = ''t2'', ParentSHAs = [''base''], Author = ''U'', Committer = ''U'', Message = ''theirs''\<rparr>],
      BaseCommit = None,
      Config = \<lparr>Strategy = StrategyRecursive, Mode = ModeSquash, ConflictResolution = ConflictFail,
                ConfigMessage = ''squash'', AllowUnrelatedHistories = False, Verbose = False\<rparr>\<rparr>"

definition squash_iter :: Iteration where
  "squash_iter = \<lparr>commonAncestorsOrder = [''base''], allPathsOrder = [''f'', ''g'']\<rparr>"


definition merge_ctx :: MergeContext where
  "merge_ctx =
     \<lparr>OurCommit = \<lparr>TreeSHA = ''t1'', ParentSHAs = [''base''], Author = ''T'', Committer = ''T'', Message = ''ours''\<rparr>,
      TheirCommits = [\<lparr>TreeSHA = ''t2'', ParentSHAs = [''base''], Author = ''U'', Committer = ''U'', Message = ''theirs''\<rparr>],
      BaseCommit = Some \<lparr>TreeSHA = ''t0'', ParentSHAs = [], Author = ''T'', Committer = ''T'', Message = ''base''\<rparr>,
      Config = \<lparr>Strategy = StrategyRecursive, Mode = ModeDefault, ConflictResolution = ConflictFail,
                ConfigMessage = ''merge'', AllowUnrelatedHistories = False, Verbose = False\<rparr>\<rparr>"

section \<open>Vocabulary of the specification\<close>

text \<open>
  The specification speaks of newline-terminated content sections: a section is the content
  itself when it already ends in a newline, and the content followed by one newline
  otherwise. These two definitions follow the specification's words, not the source.
\<close>

definition newline_terminated :: "bytes \<Rightarrow> bool" where
  "newline_terminated s = (s \<noteq> [] \<and> last s = CHR 0x0A)"

definition section_of :: "bytes \<Rightarrow> bytes" where
  "section_of content = (if newline_terminated content then content else content @ NL)"

text \<open>
  The ancestor closure of the specification: the commits reachable from \<open>b\<close> along parent
  links between readable commits, \<open>b\<close> itself included.
\<close>

definition parent_edges :: "CommitManager \<Rightarrow> (ObjectHash \<times> ObjectHash) set" where
  "parent_edges mgr =
     {(h, p). \<exists>c. GetCommit mgr h = Some c \<and> p \<in> set (ParentSHAs c) \<and> GetCommit mgr p \<noteq> None}"

definition ancestor_closure :: "CommitManager \<Rightarrow> ObjectHash \<Rightarrow> ObjectHash set" where
  "ancestor_closure mgr b = {a. (b, a) \<in> (parent_edges mgr)\<^sup>*}"

definition readable :: "CommitManager \<Rightarrow> ObjectHash set" where
  "readable mgr = {h. GetCommit mgr h \<noteq> None}"

text \<open>
  The file-history rule in the specification's words. The definitions of this part follow
  the specification, not the source. A tree's names are single path components: not empty,
  not \<open>.\<close> or \<open>..\<close>, and without a slash or a backslash. In a well-formed object store every
  stored tree has such names, no name twice, and the tree of each of its directory entries
  stored; the commits of a sequence have their trees, their parents and their parents' trees
  stored.
\<close>

definition valid_name :: "string \<Rightarrow> bool" where
  "valid_name n =
     (n \<noteq> [] \<and> n \<noteq> ''.'' \<and> n \<noteq> ''..'' \<and> CHR ''/'' \<notin> set n \<and> CHR 0x5C \<notin> set n)"

definition store_ok :: "SourceRepository \<Rightarrow> bool" where
  "store_ok repo =
     (\<forall>h t. ReadTreeObject repo h = Some t \<longrightarrow>
        distinct (map name t)
        \<and> (\<forall>e \<in> set t. valid_name (name e)
              \<and> (IsDirectory e \<longrightarrow> ReadTreeObject repo (sha e) \<noteq> None)))"

definition commits_ok :: "SourceRepository \<Rightarrow> Commit list \<Rightarrow> bool" where
  "commits_ok repo commitList =
     (\<forall>c \<in> set commitList.
        ReadTreeObject repo (TreeSHA c) \<noteq> None
        \<and> (\<forall>p \<in> set (ParentSHAs c). \<exists>parentCommit.
              ReadCommitObject repo p = Some parentCommit
              \<and> ReadTreeObject repo (TreeSHA parentCommit) \<noteq> None))"

text \<open>
  A path is its components joined by \<open>/\<close>. Path resolution walks tree objects component
  by component: the last component resolves to the digest of the file entry of that name,
  every earlier component to the stored tree of the directory entry of that name. There is
  no rule for a file entry with components remaining, so such a path is not found.
\<close>

fun join_path :: "string list \<Rightarrow> string" where
  "join_path [] = []"
| "join_path [w] = w"
| "join_path (w # v # ws) = w @ CHR ''/'' # join_path (v # ws)"

definition path_components :: "string \<Rightarrow> string list \<Rightarrow> bool" where
  "path_components p parts =
     (parts \<noteq> [] \<and> (\<forall>w \<in> set parts. CHR ''/'' \<notin> set w) \<and> join_path parts = p)"

inductive resolves :: "SourceRepository \<Rightarrow> Tree \<Rightarrow> string list \<Rightarrow> ObjectHash \<Rightarrow> bool"
  for repo :: SourceRepository where
  blob_component:
    "\<lbrakk>e \<in> set t; name e = n; IsFile e\<rbrakk> \<Longrightarrow> resolves repo t [n] (sha e)"
| tree_component:
    "\<lbrakk>e \<in> set t; name e = n; IsDirectory e; ReadTreeObject repo (sha e) = Some subTree;
      resolves repo subTree rest h\<rbrakk> \<Longrightarrow> resolves repo t (n # rest) h"

text \<open>
  The file at path \<open>p\<close> in the tree of commit \<open>c\<close> has digest \<open>h\<close>. A commit without parents
  is retained when the file is present in its tree; any other commit when, for at least one
  parent, the digests at the path differ, or the file appears, or the file disappears.
\<close>

definition file_present :: "SourceRepository \<Rightarrow> Commit \<Rightarrow> string \<Rightarrow> ObjectHash \<Rightarrow> bool" where
  "file_present repo c p h =
     (\<exists>t parts. ReadTreeObject repo (TreeSHA c) = Some t \<and> path_components p parts
                \<and> resolves repo t parts h)"

definition spec_retains :: "SourceRepository \<Rightarrow> string \<Rightarrow> Commit \<Rightarrow> bool" where
  "spec_retains repo p c =
     (if ParentSHAs c = [] then (\<exists>h. file_present repo c p h)
      else (\<exists>parent \<in> set (ParentSHAs c). \<exists>parentCommit.
              ReadCommitObject repo parent = Some parentCommit
              \<and> ((\<exists>h h'. file_present repo c p h \<and> file_present repo parentCommit p h' \<and> h \<noteq> h')
                   \<or> ((\<exists>h. file_present repo c p h) \<and> \<not> (\<exists>h'. file_present repo parentCommit p h'))
                   \<or> (\<not> (\<exists>h. file_present repo c p h) \<and> (\<exists>h'. file_present repo parentCommit p h')))))"

text \<open>An optional result as the list of zero or one element a loop appends.\<close>

definition entry_list :: "'a option \<Rightarrow> 'a list" where
  "entry_list r = (case r of None \<Rightarrow> [] | Some e \<Rightarrow> [e])"

section \<open>Properties of the content merge\<close>

text \<open>
  Claim C10. For all byte sequences base, ours, theirs: MergeContent succeeds if and only if
  at least two of the three inputs are byte-equal; on success the result is one of the two
  sides unchanged (ours when ours = theirs or base = theirs, theirs when base = ours and ours
  differs from theirs); when the three inputs are pairwise distinct it reports a conflict and
  produces no content.
\<close>

theorem MergeContent_table:
  "(snd (MergeContent base ours theirs) \<longleftrightarrow> (ours = theirs \<or> base = ours \<or> base = theirs))
   \<and> (ours = theirs \<or> base = theirs \<longrightarrow> MergeContent base ours theirs = (ours, True))
   \<and> (base = ours \<and> ours \<noteq> theirs \<longrightarrow> MergeContent base ours theirs = (theirs, True))
   \<and> (snd (MergeContent base ours theirs) \<longrightarrow>
        fst (MergeContent base ours theirs) = ours \<or> fst (MergeContent base ours theirs) = theirs)
   \<and> (base \<noteq> ours \<and> base \<noteq> theirs \<and> ours \<noteq> theirs \<longrightarrow>
        MergeContent base ours theirs = ([], False))"
  by (simp add: MergeContent_def)

theorem MergeContent_table_witness:
  "MergeContent ''a'' ''a'' ''b'' = (''b'', True)
   \<and> MergeContent ''a'' ''b'' ''a'' = (''b'', True)
   \<and> MergeContent ''a'' ''b'' ''b'' = (''b'', True)
   \<and> MergeContent ''a'' ''b'' ''c'' = ([], False)"
  using MergeContent_table [of "''a''" "''a''" "''b''"]
        MergeContent_table [of "''a''" "''b''" "''a''"]
        MergeContent_table [of "''a''" "''b''" "''b''"]
        MergeContent_table [of "''a''" "''b''" "''c''"]
  by simp

section \<open>Properties of the conflict markers\<close>

lemma HasSuffix_NL: "HasSuffix s NL = newline_terminated s"
proof (cases s rule: rev_cases)
  case Nil
  then show ?thesis by (simp add: HasSuffix_def NL_def newline_terminated_def)
next
  case (snoc ys y)
  then show ?thesis by (auto simp add: HasSuffix_def NL_def newline_terminated_def)
qed

lemma newline_terminated_section_of: "newline_terminated (section_of c)"
  by (simp add: section_of_def newline_terminated_def NL_def)

lemma append_section_of:
  "(if \<not> HasSuffix c NL then (r @ c) @ NL else r @ c) = r @ section_of c"
  by (simp add: HasSuffix_NL section_of_def)

lemma CreateConflictMarkers_sections:
  "CreateConflictMarkers base ours theirs oursLabel theirsLabel diff3Style =
     (''<<<<<<< '' @ oursLabel @ NL) @ section_of ours
     @ (if diff3Style \<and> base \<noteq> [] then (''||||||| base'' @ NL) @ section_of base else [])
     @ (''======='' @ NL) @ section_of theirs
     @ (''>>>>>>> '' @ theirsLabel @ NL)"
  unfolding CreateConflictMarkers_def Let_def append_section_of
    ConflictMarkerStart_def ConflictMarkerBase_def
      ConflictMarkerSeparator_def ConflictMarkerEnd_def
  by simp

lemma plain_section:
  "(if length c > 0 \<and> last c \<noteq> CHR 0x0A then (r @ c) @ NL else r @ c)
     = r @ (if c = [] then [] else section_of c)"
  by (simp add: section_of_def newline_terminated_def)

lemma createConflictMarkers_sections:
  "createConflictMarkers short conflict =
       (''<<<<<<< HEAD'' @ NL)
       @ (if OurVersion conflict = [] then [] else section_of (OurVersion conflict))
       @ (''======='' @ NL)
       @ (if TheirVersion conflict = [] then [] else section_of (TheirVersion conflict))
       @ (''>>>>>>> '' @ short (TheirSHA conflict) @ NL)"
  unfolding createConflictMarkers_def Let_def plain_section DefaultConflictMarker_def
  by simp

text \<open>
  Claim C8. A materialized conflicted file consists of a line \<open><<<<<<< \<close> followed by the
  ours label, then the ours content, then (only when diff3 style is requested and base
  content exists) a line \<open>||||||| base\<close> followed by the base content, then a line
  \<open>=======\<close>, then the theirs content, and finally a line \<open>>>>>>>> \<close> followed by the
  theirs label; each content section is newline-terminated. This is the layout of
  \<open>CreateConflictMarkers\<close>; \<open>ConflictResolver.createConflictMarkers\<close> has the same layout
  with the labels \<open>HEAD\<close> and the abbreviated theirs digest and no base section, and writes
  nothing at all for an empty content.
\<close>

theorem conflict_markers_layout:
  "CreateConflictMarkers base ours theirs oursLabel theirsLabel diff3Style =
     (''<<<<<<< '' @ oursLabel @ NL) @ section_of ours
     @ (if diff3Style \<and> base \<noteq> [] then (''||||||| base'' @ NL) @ section_of base else [])
     @ (''======='' @ NL) @ section_of theirs
     @ (''>>>>>>> '' @ theirsLabel @ NL)
   \<and> newline_terminated (section_of ours) \<and> newline_terminated (section_of base)
   \<and> newline_terminated (section_of theirs)
   \<and> (newline_terminated ours \<longrightarrow> section_of ours = ours)
   \<and> (newline_terminated base \<longrightarrow> section_of base = base)
   \<and> (newline_terminated theirs \<longrightarrow> section_of theirs = theirs)
   \<and> (\<not> newline_terminated ours \<longrightarrow> section_of ours = ours @ NL)
   \<and> (\<not> newline_terminated base \<longrightarrow> section_of base = base @ NL)
   \<and> (\<not> newline_terminated theirs \<longrightarrow> section_of theirs = theirs @ NL)
   \<and> createConflictMarkers short conflict =
       (''<<<<<<< HEAD'' @ NL)
       @ (if OurVersion conflict = [] then [] else section_of (OurVersion conflict))
       @ (''======='' @ NL)
       @ (if TheirVersion conflict = [] then [] else section_of (TheirVersion conflict))
       @ (''>>>>>>> '' @ short (TheirSHA conflict) @ NL)"
  using CreateConflictMarkers_sections[of base ours theirs oursLabel theirsLabel diff3Style]
    createConflictMarkers_sections[of short conflict]
    newline_terminated_section_of[of ours] newline_terminated_section_of[of base]
    newline_terminated_section_of[of theirs]
  by (simp add: section_of_def)

theorem conflict_markers_layout_witness:
  "CreateConflictMarkers (''a'' @ NL) (''B1'' @ NL) ''B2'' ''ours'' ''theirs'' True =
     ''<<<<<<< ours'' @ NL @ ''B1'' @ NL @ ''||||||| base'' @ NL @ ''a'' @ NL
     @ ''======='' @ NL @ ''B2'' @ NL @ ''>>>>>>> theirs'' @ NL
   \<and> CreateConflictMarkers (''a'' @ NL) (''B1'' @ NL) ''B2'' ''ours'' ''theirs'' False =
     ''<<<<<<< ours'' @ NL @ ''B1'' @ NL @ ''======='' @ NL @ ''B2'' @ NL
     @ ''>>>>>>> theirs'' @ NL"
  using conflict_markers_layout[of "''a'' @ NL" "''B1'' @ NL" "''B2''" "''ours''" "''theirs''" True]
    conflict_markers_layout[of "''a'' @ NL" "''B1'' @ NL" "''B2''" "''ours''" "''theirs''" False]
  by (simp add: section_of_def newline_terminated_def NL_def)

section \<open>Properties of the three-way tree merge\<close>

lemma mergeTrees_loop_concat:
  "mergeTrees_loop blobs rel be oe te order merged conflicts =
     (merged @ concat (map (\<lambda>p. entry_list (fst (mergeEntry blobs rel p (be p) (oe p) (te p)))) order),
      conflicts @ concat (map (\<lambda>p. entry_list (snd (mergeEntry blobs rel p (be p) (oe p) (te p)))) order))"
proof (induction order arbitrary: merged conflicts)
  case Nil
  then show ?case by simp
next
  case (Cons p ps)
  obtain m c where mc: "mergeEntry blobs rel p (be p) (oe p) (te p) = (m, c)"
    by (cases "mergeEntry blobs rel p (be p) (oe p) (te p)")
  show ?case
    by (cases m; cases c) (simp_all add: mc Cons.IH entry_list_def)
qed

lemma treeToMap_from_name:
  "\<lbrakk>\<And>q e. m q = Some e \<Longrightarrow> name e = q; treeToMap_from m t p = Some e\<rbrakk> \<Longrightarrow> name e = p"
proof (induction t arbitrary: m)
  case Nil
  then show ?case by simp
next
  case (Cons x xs)
  show ?case
  proof (rule Cons.IH[of "m(name x \<mapsto> x)"])
    fix q e' assume "(m(name x \<mapsto> x)) q = Some e'"
    then show "name e' = q" using Cons.prems(1) by (auto split: if_splits)
  next
    show "treeToMap_from (m(name x \<mapsto> x)) xs p = Some e"
      using Cons.prems(2) by simp
  qed
qed

lemma treeToMap_name: "treeToMap t p = Some e \<Longrightarrow> name e = p"
  unfolding treeToMap_def by (rule treeToMap_from_name[of Map.empty]) simp_all

lemma treeToMap_from_mem:
  "treeToMap_from m t p = Some e \<Longrightarrow> e \<in> set t \<or> m p = Some e"
proof (induction t arbitrary: m)
  case Nil
  then show ?case by simp
next
  case (Cons x xs)
  from Cons.prems have "treeToMap_from (m(name x \<mapsto> x)) xs p = Some e" by simp
  then have "e \<in> set xs \<or> (m(name x \<mapsto> x)) p = Some e" by (rule Cons.IH)
  then show ?case by (auto split: if_splits)
qed

lemma treeToMap_mem: "treeToMap t p = Some e \<Longrightarrow> e \<in> set t"
  unfolding treeToMap_def using treeToMap_from_mem[of Map.empty t p e] by simp

lemma treeToMap_from_dom: "dom (treeToMap_from m t) = dom m \<union> name ` set t"
  by (induction t arbitrary: m) auto

lemma dom_treeToMap: "dom (treeToMap t) = name ` set t"
  by (simp add: treeToMap_def treeToMap_from_dom)

lemma mergeEntry_result_cases:
  "mergeEntry blobs rel p b oe te = (m, c) \<Longrightarrow> m = None \<or> m = oe \<or> m = te"
  by (cases b; cases oe; cases te; cases "sha (the b) = sha (the oe)";
      cases "sha (the b) = sha (the te)"; cases "sha (the oe) = sha (the te)")
     (simp_all add: mergeEntry_def)

lemma filter_concat_map_distinct:
  "\<lbrakk>distinct ps; \<And>q x. x \<in> set (f q) \<Longrightarrow> key x = q\<rbrakk> \<Longrightarrow>
     filter (\<lambda>x. key x = p) (concat (map f ps)) = (if p \<in> set ps then f p else [])"
proof (induction ps)
  case Nil
  then show ?case by simp
next
  case (Cons q qs)
  have fq: "filter (\<lambda>x. key x = p) (f q) = (if q = p then f q else [])"
  proof (cases "q = p")
    case True
    then show ?thesis using Cons.prems(2)[of _ q] by (simp add: filter_id_conv)
  next
    case False
    then show ?thesis using Cons.prems(2)[of _ q] by (auto simp: filter_empty_conv)
  qed
  have IH: "filter (\<lambda>x. key x = p) (concat (map f qs)) = (if p \<in> set qs then f p else [])"
    using Cons.IH Cons.prems by simp
  show ?case using Cons.prems(1) by (auto simp: fq IH)
qed












lemma mergeEntry_modify_modify:
  "sha be \<noteq> sha oe \<Longrightarrow> sha be \<noteq> sha te \<Longrightarrow> sha oe \<noteq> sha te \<Longrightarrow>
   mergeEntry blobs rel p (Some be) (Some oe) (Some te) =
     (Some oe, Some (createConflict blobs rel p (Some be) (Some oe) (Some te)))"
  by (simp add: mergeEntry_def)

lemma mergeEntry_both_deleted:
  "mergeEntry blobs rel p (Some be) None None =
     (None, Some (createConflict blobs rel p (Some be) None None))"
  by (simp add: mergeEntry_def)

lemma mergeEntry_by_digest:
  "sha oe \<noteq> sha te \<Longrightarrow>
   mergeEntry blobs rel p b (Some oe) (Some te) =
     (if b \<noteq> None \<and> sha (the b) = sha te then (Some oe, None)
      else if b \<noteq> None \<and> sha (the b) = sha oe then (Some te, None)
      else (Some oe, Some (createConflict blobs rel p b (Some oe) (Some te))))"
  by (cases b) (auto simp add: mergeEntry_def)

lemma mergeTrees_concat:
  "mergeTrees blobs rel order base ours theirs =
     (concat (map (\<lambda>p. entry_list (fst (mergeEntry blobs rel p
                 (treeToMap base p) (treeToMap ours p) (treeToMap theirs p)))) order),
      concat (map (\<lambda>p. entry_list (snd (mergeEntry blobs rel p
                 (treeToMap base p) (treeToMap ours p) (treeToMap theirs p)))) order))"
  by (simp add: mergeTrees_def mergeTrees_loop_concat)

lemma merged_entry_name:
  assumes "x \<in> set (entry_list (fst (mergeEntry blobs rel q
                 (treeToMap base q) (treeToMap ours q) (treeToMap theirs q))))"
  shows "name x = q"
proof -
  let ?r = "mergeEntry blobs rel q (treeToMap base q) (treeToMap ours q) (treeToMap theirs q)"
  from assms have fx: "fst ?r = Some x"
    by (cases "fst ?r") (simp_all add: entry_list_def)
  have "fst ?r = None \<or> fst ?r = treeToMap ours q \<or> fst ?r = treeToMap theirs q"
    by (cases ?r) (use mergeEntry_result_cases in force)
  with fx have "treeToMap ours q = Some x \<or> treeToMap theirs q = Some x" by auto
  then show ?thesis by (auto dest: treeToMap_name)
qed

lemma mergeTrees_at_path:
  assumes "iteration_of order (allPaths base ours theirs)"
  shows "filter (\<lambda>e. name e = p) (fst (mergeTrees blobs rel order base ours theirs)) =
           (if p \<in> allPaths base ours theirs
            then entry_list (fst (mergeEntry blobs rel p
                    (treeToMap base p) (treeToMap ours p) (treeToMap theirs p)))
            else [])"
proof -
  from assms have d: "distinct order" and s: "set order = allPaths base ours theirs"
    by (simp_all add: iteration_of_def)
  show ?thesis
    unfolding mergeTrees_concat fst_conv
    using filter_concat_map_distinct[OF d, where key = name and p = p
        and f = "\<lambda>p. entry_list (fst (mergeEntry blobs rel p
                 (treeToMap base p) (treeToMap ours p) (treeToMap theirs p)))"]
          merged_entry_name[of _ blobs rel _ base ours theirs]
    by (simp add: s)
qed

lemma mergeTrees_entries_from_sides:
  "set (fst (mergeTrees blobs rel order base ours theirs)) \<subseteq> set ours \<union> set theirs"
proof
  fix x assume "x \<in> set (fst (mergeTrees blobs rel order base ours theirs))"
  then obtain q where q: "x \<in> set (entry_list (fst (mergeEntry blobs rel q
                 (treeToMap base q) (treeToMap ours q) (treeToMap theirs q))))"
    by (auto simp: mergeTrees_concat)
  let ?r = "mergeEntry blobs rel q (treeToMap base q) (treeToMap ours q) (treeToMap theirs q)"
  from q have fx: "fst ?r = Some x"
    by (cases "fst ?r") (simp_all add: entry_list_def)
  have "fst ?r = None \<or> fst ?r = treeToMap ours q \<or> fst ?r = treeToMap theirs q"
    by (cases ?r) (use mergeEntry_result_cases in force)
  with fx have "treeToMap ours q = Some x \<or> treeToMap theirs q = Some x" by auto
  then show "x \<in> set ours \<union> set theirs" by (auto dest: treeToMap_mem)
qed

lemma mergeTrees_conflict_listed:
  assumes "p \<in> set order"
    and "snd (mergeEntry blobs rel p (treeToMap base p) (treeToMap ours p) (treeToMap theirs p)) = Some c"
  shows "c \<in> set (snd (mergeTrees blobs rel order base ours theirs))"
  using assms by (auto simp: mergeTrees_concat entry_list_def intro!: bexI[of _ p])



text \<open>
  Claim C3, as stated: when a name is a directory in both ours and theirs with different
  digests the merger recurses into the subtrees, and a mixed-kind pairing (blob on one side,
  directory on the other) is always reported as a conflict. The source compares digests only:
  with a blob \<open>x\<close> unchanged in ours and a directory \<open>x\<close> in theirs, theirs is taken and no
  conflict is reported.
\<close>

theorem mixed_kind_without_conflict:
  "iteration_of [''x'']
     (allPaths [\<lparr>kind = FileEntry, name = ''x'', sha = ''1''\<rparr>]
               [\<lparr>kind = FileEntry, name = ''x'', sha = ''1''\<rparr>]
               [\<lparr>kind = DirectoryEntry, name = ''x'', sha = ''2''\<rparr>])
   \<and> mergeTrees Map.empty id [''x'']
        [\<lparr>kind = FileEntry, name = ''x'', sha = ''1''\<rparr>]
        [\<lparr>kind = FileEntry, name = ''x'', sha = ''1''\<rparr>]
        [\<lparr>kind = DirectoryEntry, name = ''x'', sha = ''2''\<rparr>]
     = ([\<lparr>kind = DirectoryEntry, name = ''x'', sha = ''2''\<rparr>], [])"
  by (simp add: iteration_of_def allPaths_def mergeTrees_def treeToMap_def mergeEntry_def)

text \<open>
  Claim C3, amended. The merger never recurses and never looks at the kind of an entry.
  Whenever ours and theirs both have a name with different digests (two directories, two
  blobs, or a blob and a directory) the entry is resolved as a whole by digest: ours is kept
  when base has the name with theirs' digest, theirs is taken when base has it with ours'
  digest, and otherwise a conflict is reported for that name and ours' entry is kept. Every
  entry of the merged list is an entry of ours or of theirs.
\<close>

theorem merge_resolves_whole_entries_by_digest:
  assumes "iteration_of order (allPaths base ours theirs)"
    and "treeToMap ours p = Some oe" and "treeToMap theirs p = Some te"
    and "sha oe \<noteq> sha te"
  shows
   "mergeEntry blobs rel p (treeToMap base p) (Some oe) (Some te) =
      (if treeToMap base p \<noteq> None \<and> sha (the (treeToMap base p)) = sha te then (Some oe, None)
       else if treeToMap base p \<noteq> None \<and> sha (the (treeToMap base p)) = sha oe then (Some te, None)
       else (Some oe, Some (createConflict blobs rel p (treeToMap base p) (Some oe) (Some te))))
    \<and> filter (\<lambda>e. name e = p) (fst (mergeTrees blobs rel order base ours theirs)) =
        [if treeToMap base p \<noteq> None \<and> sha (the (treeToMap base p)) = sha oe then te else oe]
    \<and> ((createConflict blobs rel p (treeToMap base p) (Some oe) (Some te)
           \<in> set (snd (mergeTrees blobs rel order base ours theirs)))
        \<or> (treeToMap base p \<noteq> None \<and>
            (sha (the (treeToMap base p)) = sha oe \<or> sha (the (treeToMap base p)) = sha te)))
    \<and> set (fst (mergeTrees blobs rel order base ours theirs)) \<subseteq> set ours \<union> set theirs"
proof -
  have pin: "p \<in> allPaths base ours theirs"
    using assms(2) by (auto simp: allPaths_def)
  then have pord: "p \<in> set order" using assms(1) by (simp add: iteration_of_def)
  note dec = mergeEntry_by_digest[OF assms(4), of blobs rel p "treeToMap base p"]
  have at: "filter (\<lambda>e. name e = p) (fst (mergeTrees blobs rel order base ours theirs)) =
      entry_list (fst (mergeEntry blobs rel p (treeToMap base p) (Some oe) (Some te)))"
    using mergeTrees_at_path[OF assms(1), of p blobs rel] pin assms(2,3) by simp
  have c1: "filter (\<lambda>e. name e = p) (fst (mergeTrees blobs rel order base ours theirs)) =
        [if treeToMap base p \<noteq> None \<and> sha (the (treeToMap base p)) = sha oe then te else oe]"
    unfolding at dec using assms(4) by (auto simp: entry_list_def)
  have c2: "(createConflict blobs rel p (treeToMap base p) (Some oe) (Some te)
           \<in> set (snd (mergeTrees blobs rel order base ours theirs)))
        \<or> (treeToMap base p \<noteq> None \<and>
            (sha (the (treeToMap base p)) = sha oe \<or> sha (the (treeToMap base p)) = sha te))"
  proof (cases "treeToMap base p \<noteq> None \<and>
            (sha (the (treeToMap base p)) = sha oe \<or> sha (the (treeToMap base p)) = sha te)")
    case True
    then show ?thesis by blast
  next
    case False
    then have "snd (mergeEntry blobs rel p (treeToMap base p) (treeToMap ours p) (treeToMap theirs p))
        = Some (createConflict blobs rel p (treeToMap base p) (Some oe) (Some te))"
      unfolding assms(2,3) dec by auto
    from mergeTrees_conflict_listed[OF pord this] show ?thesis by (simp add: assms(2,3))
  qed
  show ?thesis using dec c1 c2 mergeTrees_entries_from_sides[of blobs rel order base ours theirs]
    by blast
qed

theorem merge_resolves_whole_entries_by_digest_witness:
  "filter (\<lambda>e. name e = ''d'')
     (fst (mergeTrees Map.empty id [''d'']
        [\<lparr>kind = DirectoryEntry, name = ''d'', sha = ''0''\<rparr>]
        [\<lparr>kind = DirectoryEntry, name = ''d'', sha = ''1''\<rparr>]
        [\<lparr>kind = DirectoryEntry, name = ''d'', sha = ''2''\<rparr>]))
     = [\<lparr>kind = DirectoryEntry, name = ''d'', sha = ''1''\<rparr>]
   \<and> \<lparr>Path = ''d'', OurVersion = [], TheirVersion = [], BaseVersion = [],
       OurSHA = ''1'', TheirSHA = ''2'', BaseSHA = ''0''\<rparr>
     \<in> set (snd (mergeTrees Map.empty id [''d'']
        [\<lparr>kind = DirectoryEntry, name = ''d'', sha = ''0''\<rparr>]
        [\<lparr>kind = DirectoryEntry, name = ''d'', sha = ''1''\<rparr>]
        [\<lparr>kind = DirectoryEntry, name = ''d'', sha = ''2''\<rparr>]))"
proof -
  let ?B = "[\<lparr>kind = DirectoryEntry, name = ''d'', sha = ''0''\<rparr>]"
  let ?O = "[\<lparr>kind = DirectoryEntry, name = ''d'', sha = ''1''\<rparr>]"
  let ?T = "[\<lparr>kind = DirectoryEntry, name = ''d'', sha = ''2''\<rparr>]"
  have h1: "iteration_of [''d''] (allPaths ?B ?O ?T)"
    by (simp add: iteration_of_def allPaths_def treeToMap_def)
  have h2: "treeToMap ?O ''d'' = Some \<lparr>kind = DirectoryEntry, name = ''d'', sha = ''1''\<rparr>"
    by (simp add: treeToMap_def)
  have h3: "treeToMap ?T ''d'' = Some \<lparr>kind = DirectoryEntry, name = ''d'', sha = ''2''\<rparr>"
    by (simp add: treeToMap_def)
  have h4: "sha \<lparr>kind = DirectoryEntry, name = ''d'', sha = ''1''\<rparr>
      \<noteq> sha \<lparr>kind = DirectoryEntry, name = ''d'', sha = ''2''\<rparr>"
    by simp
  have b: "treeToMap ?B ''d'' = Some \<lparr>kind = DirectoryEntry, name = ''d'', sha = ''0''\<rparr>"
    by (simp add: treeToMap_def)
  show ?thesis
    using merge_resolves_whole_entries_by_digest[OF h1 h2 h3 h4, of Map.empty id]
    by (simp add: b createConflict_def readBlobContent_def blobOrNil_def)
qed

section \<open>Properties of the commit graph\<close>

lemma collectAncestors_mono: "ancestors \<subseteq> collectAncestors mgr pending ancestors"
proof (induction mgr pending ancestors rule: collectAncestors.induct)
  case (1 mgr ancestors)
  then show ?case by simp
next
  case (2 mgr h pending ancestors)
  show ?case
  proof (cases "GetCommit mgr h")
    case None
    with 2(1) show ?thesis by simp
  next
    case (Some c)
    show ?thesis
    proof (cases "h \<in> ancestors")
      case True
      with Some 2(2) show ?thesis by simp
    next
      case False
      with Some 2(3)[of c] show ?thesis by auto
    qed
  qed
qed

lemma collectAncestors_pending:
  "set pending \<inter> readable mgr \<subseteq> collectAncestors mgr pending ancestors"
proof (induction mgr pending ancestors rule: collectAncestors.induct)
  case (1 mgr ancestors)
  then show ?case by simp
next
  case (2 mgr h pending ancestors)
  show ?case
  proof (cases "GetCommit mgr h")
    case None
    with 2(1) show ?thesis by (auto simp: readable_def)
  next
    case (Some c)
    show ?thesis
    proof (cases "h \<in> ancestors")
      case True
      with Some 2(2) collectAncestors_mono[of ancestors mgr pending] show ?thesis by auto
    next
      case False
      have "h \<in> collectAncestors mgr (ParentSHAs c @ pending) (insert h ancestors)"
        using collectAncestors_mono[of "insert h ancestors" mgr "ParentSHAs c @ pending"] by auto
      with False Some 2(3)[of c] show ?thesis by auto
    qed
  qed
qed

lemma collectAncestors_sound:
  "collectAncestors mgr pending ancestors
     \<subseteq> ancestors \<union> (parent_edges mgr)\<^sup>* `` (set pending \<inter> readable mgr)"
proof (induction mgr pending ancestors rule: collectAncestors.induct)
  case (1 mgr ancestors)
  then show ?case by simp
next
  case (2 mgr h pending ancestors)
  show ?case
  proof (cases "GetCommit mgr h")
    case None
    with 2(1) show ?thesis by auto
  next
    case (Some c)
    show ?thesis
    proof (cases "h \<in> ancestors")
      case True
      with Some 2(2) show ?thesis by auto
    next
      case False
      have hr: "h \<in> readable mgr" using Some by (simp add: readable_def)
      have step: "(parent_edges mgr)\<^sup>* `` (set (ParentSHAs c @ pending) \<inter> readable mgr)
          \<subseteq> (parent_edges mgr)\<^sup>* `` (set (h # pending) \<inter> readable mgr)"
      proof
        fix y assume "y \<in> (parent_edges mgr)\<^sup>* `` (set (ParentSHAs c @ pending) \<inter> readable mgr)"
        then obtain x where x: "x \<in> set (ParentSHAs c @ pending)" "x \<in> readable mgr"
          and xy: "(x, y) \<in> (parent_edges mgr)\<^sup>*" by auto
        show "y \<in> (parent_edges mgr)\<^sup>* `` (set (h # pending) \<inter> readable mgr)"
        proof (cases "x \<in> set pending")
          case True
          with x xy show ?thesis by auto
        next
          case False
          with x have "x \<in> set (ParentSHAs c)" by simp
          with Some x(2) have "(h, x) \<in> parent_edges mgr"
            by (auto simp: parent_edges_def readable_def)
          from this xy have "(h, y) \<in> (parent_edges mgr)\<^sup>*" by (rule converse_rtrancl_into_rtrancl)
          with hr show ?thesis by auto
        qed
      qed
      have "collectAncestors mgr (h # pending) ancestors
          = collectAncestors mgr (ParentSHAs c @ pending) (insert h ancestors)"
        using Some False by simp
      also have "\<dots> \<subseteq> insert h ancestors
          \<union> (parent_edges mgr)\<^sup>* `` (set (ParentSHAs c @ pending) \<inter> readable mgr)"
        using 2(3)[OF Some False] .
      also have "\<dots> \<subseteq> ancestors \<union> (parent_edges mgr)\<^sup>* `` (set (h # pending) \<inter> readable mgr)"
        using step hr by auto
      finally show ?thesis .
    qed
  qed
qed

lemma collectAncestors_closed:
  "\<forall>v \<in> ancestors. \<forall>p. (v, p) \<in> parent_edges mgr \<longrightarrow> p \<in> ancestors \<union> set pending \<Longrightarrow>
   \<forall>v \<in> collectAncestors mgr pending ancestors. \<forall>p. (v, p) \<in> parent_edges mgr \<longrightarrow>
      p \<in> collectAncestors mgr pending ancestors"
proof (induction mgr pending ancestors rule: collectAncestors.induct)
  case (1 mgr ancestors)
  then show ?case by simp
next
  case (2 mgr h pending ancestors)
  show ?case
  proof (cases "GetCommit mgr h")
    case None
    have "\<forall>v \<in> ancestors. \<forall>p. (v, p) \<in> parent_edges mgr \<longrightarrow> p \<in> ancestors \<union> set pending"
      using 2(4) None by (fastforce simp: parent_edges_def)
    from 2(1)[OF None this] None show ?thesis by simp
  next
    case (Some c)
    show ?thesis
    proof (cases "h \<in> ancestors")
      case True
      have "\<forall>v \<in> ancestors. \<forall>p. (v, p) \<in> parent_edges mgr \<longrightarrow> p \<in> ancestors \<union> set pending"
        using 2(4) True by auto
      from 2(2)[OF Some True this] Some True show ?thesis by simp
    next
      case False
      have "\<forall>v \<in> insert h ancestors. \<forall>p. (v, p) \<in> parent_edges mgr \<longrightarrow>
              p \<in> insert h ancestors \<union> set (ParentSHAs c @ pending)"
        using 2(4) Some by (auto simp: parent_edges_def)
      from 2(3)[OF Some False this] Some False show ?thesis by simp
    qed
  qed
qed

lemma getAncestors_closure:
  assumes "GetCommit mgr b \<noteq> None"
  shows "getAncestors mgr b = ancestor_closure mgr b"
proof
  have "getAncestors mgr b \<subseteq> {} \<union> (parent_edges mgr)\<^sup>* `` (set [b] \<inter> readable mgr)"
    unfolding getAncestors_def by (rule collectAncestors_sound)
  then show "getAncestors mgr b \<subseteq> ancestor_closure mgr b"
    by (auto simp: ancestor_closure_def)
next
  have b: "b \<in> getAncestors mgr b"
    using collectAncestors_pending[of "[b]" mgr "{}"] assms
    by (auto simp: getAncestors_def readable_def)
  have closed: "\<forall>v \<in> getAncestors mgr b. \<forall>p. (v, p) \<in> parent_edges mgr \<longrightarrow> p \<in> getAncestors mgr b"
    unfolding getAncestors_def by (rule collectAncestors_closed) simp
  show "ancestor_closure mgr b \<subseteq> getAncestors mgr b"
  proof
    fix a assume "a \<in> ancestor_closure mgr b"
    then have "(b, a) \<in> (parent_edges mgr)\<^sup>*" by (simp add: ancestor_closure_def)
    then show "a \<in> getAncestors mgr b"
      by (induction rule: rtrancl_induct) (use b closed in auto)
  qed
qed

lemma first_retrievable_mem:
  "first_retrievable mgr order = Inr (h, c) \<Longrightarrow> h \<in> set order \<and> GetCommit mgr h = Some c"
  by (induction order) (auto split: option.splits)

lemma FindMergeBase_common:
  assumes "iteration_of order (commonAncestors mgr a b)"
    and "FindMergeBase mgr order a b = Inr (m, c)"
  shows "IsAncestor mgr m a = Inr True \<and> IsAncestor mgr m b = Inr True \<and> GetCommit mgr m = Some c"
proof -
  from assms(2) have i: "Initialize mgr" and ga: "GetCommit mgr a \<noteq> None" and gb: "GetCommit mgr b \<noteq> None"
    and fr: "first_retrievable mgr order = Inr (m, c)"
    by (auto simp: FindMergeBase_def split: if_splits option.splits)
  from first_retrievable_mem[OF fr] assms(1) have "m \<in> commonAncestors mgr a b" and "GetCommit mgr m = Some c"
    by (auto simp: iteration_of_def)
  then show ?thesis using i ga gb
    by (auto simp: IsAncestor_def commonAncestors_def)
qed

lemma CanFastForward_same_digest: "CanFastForward mgr a a = Inr True"
  by (simp add: CanFastForward_def)

lemma IsAncestor_unreadable:
  "Initialize mgr \<Longrightarrow> GetCommit mgr b = None \<Longrightarrow> IsAncestor mgr a b = Inl (GetCommitFailed b)"
  by (simp add: IsAncestor_def)

text \<open>
  Claim C6. For every pair of commits \<open>(a, b)\<close>, \<open>can_ff(a, b)\<close> returns true if and only if
  \<open>is_ancestor(a, b)\<close> returns true, where \<open>is_ancestor(a, b)\<close> reports membership of \<open>a\<close> in
  the ancestor closure of \<open>b\<close> and returns true when \<open>a\<close> equals \<open>b\<close>. The commit \<open>b\<close> is a
  commit of the store and the commit manager initializes.
\<close>

theorem fast_forward_iff_ancestor:
  assumes "Initialize mgr" and "GetCommit mgr b \<noteq> None"
  shows "CanFastForward mgr a b = IsAncestor mgr a b
       \<and> IsAncestor mgr a b = Inr (a \<in> ancestor_closure mgr b)
       \<and> IsAncestor mgr b b = Inr True"
proof -
  have cl: "getAncestors mgr b = ancestor_closure mgr b"
    using assms(2) by (rule getAncestors_closure)
  have isa: "\<And>x. IsAncestor mgr x b = Inr (x \<in> ancestor_closure mgr b)"
    using assms cl by (auto simp: IsAncestor_def)
  have refl: "b \<in> ancestor_closure mgr b" by (simp add: ancestor_closure_def)
  have "CanFastForward mgr a b = IsAncestor mgr a b"
    using isa[of a] isa[of b] refl by (auto simp: CanFastForward_def)
  then show ?thesis using isa[of a] isa[of b] refl by simp
qed

theorem fast_forward_iff_ancestor_witness:
  "CanFastForward linear_history ''c0'' ''c2'' = Inr True
   \<and> IsAncestor linear_history ''c0'' ''c2'' = Inr True
   \<and> ''c0'' \<in> ancestor_closure linear_history ''c2''
   \<and> CanFastForward linear_history ''c2'' ''c0'' = Inr False
   \<and> ''c2'' \<notin> ancestor_closure linear_history ''c0''"
proof -
  have i: "Initialize linear_history" by (simp add: Initialize_def linear_history_def)
  have g2: "GetCommit linear_history ''c2'' \<noteq> None" by (simp add: GetCommit_def linear_history_def)
  have g0: "GetCommit linear_history ''c0'' \<noteq> None" by (simp add: GetCommit_def linear_history_def)
  have e1: "IsAncestor linear_history ''c0'' ''c2'' = Inr True"
    by (simp add: IsAncestor_def Initialize_def getAncestors_def GetCommit_def linear_history_def)
  have e2: "IsAncestor linear_history ''c2'' ''c0'' = Inr False"
    by (simp add: IsAncestor_def Initialize_def getAncestors_def GetCommit_def linear_history_def)
  show ?thesis
    using fast_forward_iff_ancestor[OF i g2, of "''c0''"] fast_forward_iff_ancestor[OF i g0, of "''c2''"]
      e1 e2 by simp
qed

text \<open>
  Claim C1 asks that no proper descendant of a returned merge base is itself a common
  ancestor, and that on a linear history the base is the unique lowest common ancestor.
  On the linear history \<open>c0\<close>, \<open>c1\<close>, \<open>c2\<close> the common ancestors of \<open>c1\<close> and \<open>c2\<close> are \<open>c0\<close>
  and \<open>c1\<close>; when the map iteration yields \<open>c0\<close> first, \<open>FindMergeBase\<close> returns \<open>c0\<close>,
  although its descendant \<open>c1\<close> is an ancestor of both.
\<close>

theorem FindMergeBase_linear_returns_root:
  "iteration_of [''c0'', ''c1''] (commonAncestors linear_history ''c1'' ''c2'')
   \<and> FindMergeBase linear_history [''c0'', ''c1''] ''c1'' ''c2'' =
       Inr (''c0'', \<lparr>TreeSHA = ''t0'', ParentSHAs = [], Author = ''T'', Committer = ''T'', Message = ''zero''\<rparr>)
   \<and> IsAncestor linear_history ''c1'' ''c1'' = Inr True
   \<and> IsAncestor linear_history ''c1'' ''c2'' = Inr True
   \<and> IsAncestor linear_history ''c0'' ''c1'' = Inr True
   \<and> ''c0'' \<noteq> ''c1''"
proof -
  have a1: "getAncestors linear_history ''c1'' = {''c0'', ''c1''}"
    by (simp add: getAncestors_def GetCommit_def linear_history_def insert_commute)
  have a2: "getAncestors linear_history ''c2'' = {''c0'', ''c1'', ''c2''}"
    by (simp add: getAncestors_def GetCommit_def linear_history_def insert_commute)
  have ca: "commonAncestors linear_history ''c1'' ''c2'' = {''c0'', ''c1''}"
    unfolding commonAncestors_def Let_def a1 a2 by auto
  have it: "iteration_of [''c0'', ''c1''] (commonAncestors linear_history ''c1'' ''c2'')"
    unfolding ca by (simp add: iteration_of_def)
  have g: "GetCommit linear_history ''c0'' = Some \<lparr>TreeSHA = ''t0'', ParentSHAs = [], Author = ''T'', Committer = ''T'', Message = ''zero''\<rparr>"
      "GetCommit linear_history ''c1'' \<noteq> None" "GetCommit linear_history ''c2'' \<noteq> None"
      "Initialize linear_history"
    by (simp_all add: GetCommit_def linear_history_def Initialize_def)
  have fm: "FindMergeBase linear_history [''c0'', ''c1''] ''c1'' ''c2'' =
       Inr (''c0'', \<lparr>TreeSHA = ''t0'', ParentSHAs = [], Author = ''T'', Committer = ''T'', Message = ''zero''\<rparr>)"
    using g by (auto simp: FindMergeBase_def ca)
  have ia: "IsAncestor linear_history ''c1'' ''c1'' = Inr True"
      "IsAncestor linear_history ''c1'' ''c2'' = Inr True"
      "IsAncestor linear_history ''c0'' ''c1'' = Inr True"
    using g by (auto simp: IsAncestor_def a1 a2)
  show ?thesis using it fm ia by simp
qed

section \<open>Properties of the conflict stages\<close>

lemma filter_index_sort: "filter P (index_sort es) = index_sort (filter P es)"
  by (simp add: index_sort_def filter_sort)

lemma index_sort_Nil: "index_sort [] = []"
  by (simp add: index_sort_def)

lemma index_sort_single: "index_sort [e] = [e]"
  by (simp add: index_sort_def)

lemma set_index_sort: "set (index_sort es) = set es"
  by (simp add: index_sort_def)

lemma filter_eq_filter: "(\<And>x. x \<in> set xs \<Longrightarrow> P x = Q x) \<Longrightarrow> filter P xs = filter Q xs"
  by (rule filter_cong) simp_all

lemma removed_both:
  assumes "Normalize (Normalize path) = Normalize path"
  shows "Entries (RemoveConflict Normalize (Remove Normalize idx (Normalize path)) (Normalize path))
     = filter (\<lambda>e. \<not> (Normalize (EntryPath e) = Normalize path \<and> Stage e \<le> 3)) (Entries idx)"
proof -
  have "Entries (RemoveConflict Normalize (Remove Normalize idx (Normalize path)) (Normalize path))
     = filter (\<lambda>entry. \<not> (Normalize (EntryPath entry) = Normalize path \<and> 1 \<le> Stage entry \<and> Stage entry \<le> 3))
        (filter (\<lambda>entry. \<not> (Normalize (EntryPath entry) = Normalize path \<and> Stage entry = 0)) (Entries idx))"
    by (simp add: Remove_def RemoveConflict_def Let_def assms del: filter_filter)
  also have "\<dots> = filter (\<lambda>e. \<not> (Normalize (EntryPath e) = Normalize path \<and> Stage e \<le> 3)) (Entries idx)"
    unfolding filter_filter by (rule filter_eq_filter) auto
  finally show ?thesis .
qed

lemma AddConflict_Entries:
  assumes "Normalize (Normalize path) = Normalize path"
  shows "Entries (AddConflict Normalize IsZero idx path base ours theirs) =
     index_sort
       (filter (\<lambda>e. \<not> (Normalize (EntryPath e) = Normalize path \<and> Stage e \<le> 3)) (Entries idx)
        @ (if IsZero base then [] else [\<lparr>Stage = 1, EntryPath = path, BlobHash = base\<rparr>])
        @ (if IsZero ours then [] else [\<lparr>Stage = 2, EntryPath = path, BlobHash = ours\<rparr>])
        @ (if IsZero theirs then [] else [\<lparr>Stage = 3, EntryPath = path, BlobHash = theirs\<rparr>]))"
  unfolding AddConflict_def Let_def
  by (simp add: removed_both[OF assms])

lemma stage_entries_AddConflict:
  assumes "Normalize (Normalize path) = Normalize path" and "k \<le> 3"
  shows "stage_entries Normalize (AddConflict Normalize IsZero idx path base ours theirs) path k =
     (if k = 1 \<and> \<not> IsZero base then [\<lparr>Stage = 1, EntryPath = path, BlobHash = base\<rparr>]
      else if k = 2 \<and> \<not> IsZero ours then [\<lparr>Stage = 2, EntryPath = path, BlobHash = ours\<rparr>]
      else if k = 3 \<and> \<not> IsZero theirs then [\<lparr>Stage = 3, EntryPath = path, BlobHash = theirs\<rparr>]
      else [])"
proof -
  have old: "filter (\<lambda>e. Normalize (EntryPath e) = Normalize path \<and> Stage e = k)
       (filter (\<lambda>e. \<not> (Normalize (EntryPath e) = Normalize path \<and> Stage e \<le> 3)) (Entries idx)) = []"
    using assms(2) by (auto simp: filter_empty_conv)
  show ?thesis
    unfolding stage_entries_def AddConflict_Entries[OF assms(1)] filter_index_sort filter_append old
    by (auto simp: index_sort_Nil index_sort_single)
qed

lemma IsConflicted_iff:
  "IsConflicted Normalize idx path \<longleftrightarrow>
     (\<exists>e \<in> set (Entries idx). Normalize (EntryPath e) = Normalize path \<and> Stage e > 0)"
  by (auto simp: IsConflicted_def Let_def list_ex_iff)

lemma stage_entries_empty_iff:
  "stage_entries Normalize idx path k = [] \<longleftrightarrow>
     \<not> (\<exists>e \<in> set (Entries idx). Normalize (EntryPath e) = Normalize path \<and> Stage e = k)"
  by (auto simp: stage_entries_def filter_empty_conv)

lemma IsConflicted_stages:
  assumes "\<forall>e \<in> set (Entries idx). Stage e \<le> 3"
  shows "IsConflicted Normalize idx path \<longleftrightarrow>
     (stage_entries Normalize idx path 1 \<noteq> [] \<or> stage_entries Normalize idx path 2 \<noteq> []
      \<or> stage_entries Normalize idx path 3 \<noteq> [])"
proof -
  have "\<And>e. e \<in> set (Entries idx) \<Longrightarrow> (Stage e > 0) = (Stage e = 1 \<or> Stage e = 2 \<or> Stage e = 3)"
    using assms by (auto simp: le_Suc_eq numeral_3_eq_3)
  then show ?thesis
    unfolding IsConflicted_iff stage_entries_empty_iff by blast
qed

lemma AddConflict_stage_bound:
  assumes "Normalize (Normalize path) = Normalize path" and "\<forall>e \<in> set (Entries idx). Stage e \<le> 3"
  shows "\<forall>e \<in> set (Entries (AddConflict Normalize IsZero idx path base ours theirs)). Stage e \<le> 3"
  using assms(2) unfolding AddConflict_Entries[OF assms(1)] set_index_sort by auto

lemma ResolveConflict_Entries:
  assumes "IsConflicted Normalize idx path"
  shows "ResolveConflict Normalize idx path digest =
     Inr (idx\<lparr>Entries := index_sort
        (filter (\<lambda>e. \<not> (Normalize (EntryPath e) = Normalize path \<and> Stage e \<le> 3 )) (Entries idx)
         @ [\<lparr>Stage = 0, EntryPath = path, BlobHash = digest\<rparr>])\<rparr>)"
proof -
  have "filter (\<lambda>e. \<not> (Normalize (EntryPath e) = Normalize path \<and> Stage e = 0))
            (filter (\<lambda>entry. \<not> (Normalize (EntryPath entry) = Normalize path \<and> 1 \<le> Stage entry \<and> Stage entry \<le> 3)) (Entries idx))
         = filter (\<lambda>e. \<not> (Normalize (EntryPath e) = Normalize path \<and> Stage e \<le> 3)) (Entries idx)"
    unfolding filter_filter by (rule filter_eq_filter) auto
  then show ?thesis
    using assms by (simp add: ResolveConflict_def Let_def Add_def RemoveConflict_def del: filter_filter)
qed

lemma stage_entries_resolved:
  assumes "k \<le> 3"
  shows "stage_entries Normalize (idx\<lparr>Entries := index_sort
        (filter (\<lambda>e. \<not> (Normalize (EntryPath e) = Normalize path \<and> Stage e \<le> 3 )) (Entries idx)
         @ [\<lparr>Stage = 0, EntryPath = path, BlobHash = digest\<rparr>])\<rparr>) path k
     = (if k = 0 then [\<lparr>Stage = 0, EntryPath = path, BlobHash = digest\<rparr>] else [])"
proof -
  have old: "filter (\<lambda>e. Normalize (EntryPath e) = Normalize path \<and> Stage e = k)
       (filter (\<lambda>e. \<not> (Normalize (EntryPath e) = Normalize path \<and> Stage e \<le> 3)) (Entries idx)) = []"
    using assms by (auto simp: filter_empty_conv)
  have E: "\<And>X. Entries (idx\<lparr>Entries := X\<rparr>) = X" by simp
  show ?thesis
    unfolding stage_entries_def E filter_index_sort filter_append old
    by (auto simp: index_sort_Nil index_sort_single)
qed

text \<open>
  Claim C7. After \<open>AddConflict(path, base, ours, theirs)\<close> the index contains, for that path,
  exactly one stage-1 entry iff base is non-zero, one stage-2 entry iff ours is non-zero, one
  stage-3 entry iff theirs is non-zero, and no stage-0 entry; after
  \<open>ResolveConflict(path, digest)\<close> on a conflicted path all stage-1..3 entries of the path
  are gone and a single stage-0 entry with the given digest is installed; so a path is
  conflicted iff it has stage 1-3 entries and no stage-0 entry. Entries belong to a path when
  their normalized paths agree; normalizing twice is the same as normalizing once, and the
  stages of the index are within 0..3.
\<close>

theorem conflict_stages:
  assumes idem: "Normalize (Normalize path) = Normalize path"
    and stages: "\<forall>e \<in> set (Entries idx). Stage e \<le> 3"
  shows
   "stage_entries Normalize (AddConflict Normalize IsZero idx path base ours theirs) path 1 =
       (if IsZero base then [] else [\<lparr>Stage = 1, EntryPath = path, BlobHash = base\<rparr>])
    \<and> stage_entries Normalize (AddConflict Normalize IsZero idx path base ours theirs) path 2 =
       (if IsZero ours then [] else [\<lparr>Stage = 2, EntryPath = path, BlobHash = ours\<rparr>])
    \<and> stage_entries Normalize (AddConflict Normalize IsZero idx path base ours theirs) path 3 =
       (if IsZero theirs then [] else [\<lparr>Stage = 3, EntryPath = path, BlobHash = theirs\<rparr>])
    \<and> stage_entries Normalize (AddConflict Normalize IsZero idx path base ours theirs) path 0 = []
    \<and> (IsConflicted Normalize (AddConflict Normalize IsZero idx path base ours theirs) path \<longleftrightarrow>
          (stage_entries Normalize (AddConflict Normalize IsZero idx path base ours theirs) path 1 \<noteq> []
           \<or> stage_entries Normalize (AddConflict Normalize IsZero idx path base ours theirs) path 2 \<noteq> []
           \<or> stage_entries Normalize (AddConflict Normalize IsZero idx path base ours theirs) path 3 \<noteq> [])
          \<and> stage_entries Normalize (AddConflict Normalize IsZero idx path base ours theirs) path 0 = [])
    \<and> (IsConflicted Normalize idx path \<longrightarrow>
          (\<exists>resolved. ResolveConflict Normalize idx path digest = Inr resolved
             \<and> stage_entries Normalize resolved path 1 = []
             \<and> stage_entries Normalize resolved path 2 = []
             \<and> stage_entries Normalize resolved path 3 = []
             \<and> stage_entries Normalize resolved path 0 =
                 [\<lparr>Stage = 0, EntryPath = path, BlobHash = digest\<rparr>]
             \<and> \<not> IsConflicted Normalize resolved path))
    \<and> (\<not> IsConflicted Normalize idx path \<longrightarrow>
          ResolveConflict Normalize idx path digest = Inl (NoConflictForPath path))"
proof -
  let ?added = "AddConflict Normalize IsZero idx path base ours theirs"
  have s1: "stage_entries Normalize ?added path 1 =
       (if IsZero base then [] else [\<lparr>Stage = 1, EntryPath = path, BlobHash = base\<rparr>])"
    using stage_entries_AddConflict[OF idem, of 1 IsZero idx base ours theirs] by simp
  have s2: "stage_entries Normalize ?added path 2 =
       (if IsZero ours then [] else [\<lparr>Stage = 2, EntryPath = path, BlobHash = ours\<rparr>])"
    using stage_entries_AddConflict[OF idem, of 2 IsZero idx base ours theirs] by simp
  have s3: "stage_entries Normalize ?added path 3 =
       (if IsZero theirs then [] else [\<lparr>Stage = 3, EntryPath = path, BlobHash = theirs\<rparr>])"
    using stage_entries_AddConflict[OF idem, of 3 IsZero idx base ours theirs] by simp
  have s0: "stage_entries Normalize ?added path 0 = []"
    using stage_entries_AddConflict[OF idem, of 0 IsZero idx base ours theirs] by simp
  have c: "IsConflicted Normalize ?added path \<longleftrightarrow>
          (stage_entries Normalize ?added path 1 \<noteq> []
           \<or> stage_entries Normalize ?added path 2 \<noteq> []
           \<or> stage_entries Normalize ?added path 3 \<noteq> [])
          \<and> stage_entries Normalize ?added path 0 = []"
    using IsConflicted_stages[OF AddConflict_stage_bound[OF idem stages,
          where IsZero = IsZero and base = base and ours = ours and theirs = theirs],
          where path = path] s0
    by simp
  have r: "IsConflicted Normalize idx path \<longrightarrow>
          (\<exists>resolved. ResolveConflict Normalize idx path digest = Inr resolved
             \<and> stage_entries Normalize resolved path 1 = []
             \<and> stage_entries Normalize resolved path 2 = []
             \<and> stage_entries Normalize resolved path 3 = []
             \<and> stage_entries Normalize resolved path 0 =
                 [\<lparr>Stage = 0, EntryPath = path, BlobHash = digest\<rparr>]
             \<and> \<not> IsConflicted Normalize resolved path)"
  proof
    assume ic: "IsConflicted Normalize idx path"
    let ?res = "idx\<lparr>Entries := index_sort
        (filter (\<lambda>e. \<not> (Normalize (EntryPath e) = Normalize path \<and> Stage e \<le> 3 )) (Entries idx)
         @ [\<lparr>Stage = 0, EntryPath = path, BlobHash = digest\<rparr>])\<rparr>"
    have bound: "\<forall>e \<in> set (Entries ?res). Stage e \<le> 3"
      using stages by (auto simp: set_index_sort)
    have k: "stage_entries Normalize ?res path 1 = []" "stage_entries Normalize ?res path 2 = []"
      "stage_entries Normalize ?res path 3 = []"
      "stage_entries Normalize ?res path 0 = [\<lparr>Stage = 0, EntryPath = path, BlobHash = digest\<rparr>]"
      using stage_entries_resolved[where k = 1 and Normalize = Normalize and idx = idx and path = path and digest = digest]
        stage_entries_resolved[where k = 2 and Normalize = Normalize and idx = idx and path = path and digest = digest]
        stage_entries_resolved[where k = 3 and Normalize = Normalize and idx = idx and path = path and digest = digest]
        stage_entries_resolved[where k = 0 and Normalize = Normalize and idx = idx and path = path and digest = digest]
      by simp_all
    have "\<not> IsConflicted Normalize ?res path"
      unfolding IsConflicted_stages[OF bound] using k by simp
    with k ResolveConflict_Entries[OF ic, of digest]
    show "\<exists>resolved. ResolveConflict Normalize idx path digest = Inr resolved
             \<and> stage_entries Normalize resolved path 1 = []
             \<and> stage_entries Normalize resolved path 2 = []
             \<and> stage_entries Normalize resolved path 3 = []
             \<and> stage_entries Normalize resolved path 0 =
                 [\<lparr>Stage = 0, EntryPath = path, BlobHash = digest\<rparr>]
             \<and> \<not> IsConflicted Normalize resolved path"
      by blast
  qed
  have e: "\<not> IsConflicted Normalize idx path \<longrightarrow>
          ResolveConflict Normalize idx path digest = Inl (NoConflictForPath path)"
    by (simp add: ResolveConflict_def)
  show ?thesis using s1 s2 s3 s0 c r e by blast
qed

theorem conflict_stages_witness:
  "stage_entries id (AddConflict id (\<lambda>h. h = []) two_files ''a.txt'' ''1'' [] ''3'') ''a.txt'' 1 =
       [\<lparr>Stage = 1, EntryPath = ''a.txt'', BlobHash = ''1''\<rparr>]
   \<and> stage_entries id (AddConflict id (\<lambda>h. h = []) two_files ''a.txt'' ''1'' [] ''3'') ''a.txt'' 2 = []
   \<and> stage_entries id (AddConflict id (\<lambda>h. h = []) two_files ''a.txt'' ''1'' [] ''3'') ''a.txt'' 3 =
       [\<lparr>Stage = 3, EntryPath = ''a.txt'', BlobHash = ''3''\<rparr>]
   \<and> stage_entries id (AddConflict id (\<lambda>h. h = []) two_files ''a.txt'' ''1'' [] ''3'') ''a.txt'' 0 = []
   \<and> IsConflicted id (AddConflict id (\<lambda>h. h = []) two_files ''a.txt'' ''1'' [] ''3'') ''a.txt''
   \<and> (\<exists>resolved.
         ResolveConflict id (AddConflict id (\<lambda>h. h = []) two_files ''a.txt'' ''1'' [] ''3'') ''a.txt'' ''5''
           = Inr resolved
         \<and> stage_entries id resolved ''a.txt'' 0 = [\<lparr>Stage = 0, EntryPath = ''a.txt'', BlobHash = ''5''\<rparr>]
         \<and> \<not> IsConflicted id resolved ''a.txt'')
   \<and> ResolveConflict id two_files ''a.txt'' ''5'' = Inl (NoConflictForPath ''a.txt'')"
proof -
  let ?added = "AddConflict id (\<lambda>h. h = []) two_files ''a.txt'' ''1'' [] ''3''"
  have h1: "id (id ''a.txt'') = id ''a.txt''" by simp
  have h2: "\<forall>e \<in> set (Entries two_files). Stage e \<le> 3" by (simp add: two_files_def)
  have ev: "Entries ?added =
      [\<lparr>Stage = 1, EntryPath = ''a.txt'', BlobHash = ''1''\<rparr>,
       \<lparr>Stage = 3, EntryPath = ''a.txt'', BlobHash = ''3''\<rparr>,
       \<lparr>Stage = 0, EntryPath = ''b.txt'', BlobHash = ''9''\<rparr>]"
    by (simp add: AddConflict_def Remove_def RemoveConflict_def index_sort_def two_files_def Let_def)
  have h3: "\<forall>e \<in> set (Entries ?added). Stage e \<le> 3" by (simp add: ev)
  have nc: "\<not> IsConflicted id two_files ''a.txt''"
    by (simp add: IsConflicted_def two_files_def)
  note a = conflict_stages[where Normalize = id and path = "''a.txt''" and idx = two_files
      and IsZero = "\<lambda>h. h = []" and base = "''1''" and ours = "[]" and theirs = "''3''"
      and digest = "''5''", OF h1 h2]
  note b = conflict_stages[where Normalize = id and path = "''a.txt''" and idx = ?added
      and IsZero = "\<lambda>h. h = []" and base = "''1''" and ours = "[]" and theirs = "''3''"
      and digest = "''5''", OF h1 h3]
  have ic: "IsConflicted id ?added ''a.txt''" using a by simp
  from b ic have res: "\<exists>resolved.
         ResolveConflict id ?added ''a.txt'' ''5'' = Inr resolved
         \<and> stage_entries id resolved ''a.txt'' 0 = [\<lparr>Stage = 0, EntryPath = ''a.txt'', BlobHash = ''5''\<rparr>]
         \<and> \<not> IsConflicted id resolved ''a.txt''"
    by blast
  show ?thesis using a nc ic res by simp
qed

section \<open>Properties of the file history\<close>

lemma parents_loop_iff:
  "parents_loop Clean cancelled repo filePath currentBlob ps \<longleftrightarrow>
     (\<exists>p \<in> set ps.
        case ReadCommitObject repo p of
          None \<Rightarrow> True
        | Some parentCommit \<Rightarrow>
            (case findFileInCommit Clean cancelled repo parentCommit filePath of
               Inl err \<Rightarrow> False
             | Inr parentBlob \<Rightarrow> parentBlob \<noteq> currentBlob))"
proof (induction ps)
  case Nil
  then show ?case by simp
next
  case (Cons p ps)
  show ?case
  proof (cases "ReadCommitObject repo p")
    case None
    then show ?thesis by simp
  next
    case (Some pc)
    show ?thesis
    proof (cases "findFileInCommit Clean cancelled repo pc filePath")
      case (Inl err)
      with Some Cons.IH show ?thesis by simp
    next
      case (Inr pb)
      with Some Cons.IH show ?thesis
        by (cases currentBlob; cases pb) auto
    qed
  qed
qed

lemma FilterByFile_loop_filter:
  "FilterByFile_loop Clean False repo filePath cs filtered =
     (filtered @ filter (\<lambda>c. commitModifiesFile Clean False repo c filePath = Inr True) cs, None)"
proof (induction cs arbitrary: filtered)
  case Nil
  then show ?case by simp
next
  case (Cons c cs)
  show ?case
  proof (cases "commitModifiesFile Clean False repo c filePath")
    case (Inl err)
    then show ?thesis by (simp add: Cons.IH)
  next
    case (Inr modified)
    then show ?thesis by (cases modified) (simp_all add: Cons.IH)
  qed
qed

lemma findFile_walk:
  "findFileInTreeRecursive False repo t [] = Inr None"
  "find (\<lambda>entry. name entry = n) t = None \<Longrightarrow>
     findFileInTreeRecursive False repo t (n # rest) = Inr None"
  "\<lbrakk>n \<noteq> []; find (\<lambda>entry. name entry = n) t = Some e\<rbrakk> \<Longrightarrow>
     findFileInTreeRecursive False repo t [n] = (if IsFile e then Inr (Some (sha e)) else Inr None)"
  "\<lbrakk>n \<noteq> []; rest \<noteq> []; find (\<lambda>entry. name entry = n) t = Some e; IsDirectory e;
    ReadTreeObject repo (sha e) = Some subTree\<rbrakk> \<Longrightarrow>
     findFileInTreeRecursive False repo t (n # rest) = findFileInTreeRecursive False repo subTree rest"
  "\<lbrakk>n \<noteq> []; rest \<noteq> []; find (\<lambda>entry. name entry = n) t = Some e; \<not> IsDirectory e\<rbrakk> \<Longrightarrow>
     findFileInTreeRecursive False repo t (n # rest) = Inr None"
  by simp_all

lemma FilterByFile_empty_path:
  "FilterByFile Clean cancelled repo commitList [] = (commitList, None)"
  by (simp add: FilterByFile_def)

lemma commitModifiesFile_unreadable_parent:
  assumes "findFileInCommit Clean False repo c filePath = Inr currentBlob"
    and "p \<in> set (ParentSHAs c)" and "ReadCommitObject repo p = None"
  shows "commitModifiesFile Clean False repo c filePath = Inr True"
proof -
  have "parents_loop Clean False repo filePath currentBlob (ParentSHAs c)"
    unfolding parents_loop_iff using assms(2,3) by (auto intro!: bexI[of _ p])
  moreover have "ParentSHAs c \<noteq> []" using assms(2) by auto
  ultimately show ?thesis by (simp add: commitModifiesFile_def assms(1))
qed

lemma Split_not_Nil: "Split s sep \<noteq> []"
  by (induction s) (auto split: list.splits)

lemma Split_free: "w \<in> set (Split s sep) \<Longrightarrow> sep \<notin> set w"
proof (induction s arbitrary: w)
  case Nil
  then show ?case by simp
next
  case (Cons c cs)
  show ?case
  proof (cases "c = sep")
    case True
    with Cons show ?thesis by auto
  next
    case False
    obtain v vs where sp: "Split cs sep = v # vs"
      using Split_not_Nil[of cs sep] by (cases "Split cs sep") auto
    with Cons.prems False have "w = c # v \<or> w \<in> set vs" by simp
    then show ?thesis
      using Cons.IH[of v] Cons.IH[of w] sp False by auto
  qed
qed

lemma join_path_Cons_char: "join_path ((c # w) # ws) = c # join_path (w # ws)"
  by (cases ws) simp_all

lemma join_path_Split: "join_path (Split s (CHR ''/'')) = s"
proof (induction s)
  case Nil
  then show ?case by simp
next
  case (Cons c cs)
  obtain v vs where sp: "Split cs (CHR ''/'') = v # vs"
    using Split_not_Nil[of cs "CHR ''/''"] by (cases "Split cs (CHR ''/'')") auto
  show ?case
  proof (cases "c = CHR ''/''")
    case True
    then show ?thesis using Cons.IH sp by simp
  next
    case False
    then show ?thesis using Cons.IH sp by (simp add: join_path_Cons_char)
  qed
qed

lemma Split_single: "sep \<notin> set w \<Longrightarrow> Split w sep = [w]"
  by (induction w) auto

lemma Split_append_sep: "sep \<notin> set w \<Longrightarrow> Split (w @ sep # rest) sep = w # Split rest sep"
  by (induction w) auto

lemma Split_join_path:
  "\<lbrakk>parts \<noteq> []; \<forall>w \<in> set parts. CHR ''/'' \<notin> set w\<rbrakk> \<Longrightarrow>
     Split (join_path parts) (CHR ''/'') = parts"
proof (induction parts rule: join_path.induct)
  case 1
  then show ?case by simp
next
  case (2 w)
  then show ?case by (simp add: Split_single)
next
  case (3 w v ws)
  then show ?case by (simp add: Split_append_sep)
qed

lemma path_components_iff: "path_components p parts \<longleftrightarrow> parts = Split p (CHR ''/'')"
proof
  assume "path_components p parts"
  then show "parts = Split p (CHR ''/'')"
    using Split_join_path[of parts] by (auto simp: path_components_def)
next
  assume "parts = Split p (CHR ''/'')"
  then show "path_components p parts"
    by (auto simp: path_components_def Split_not_Nil join_path_Split dest: Split_free)
qed

lemma same_name_same_entry:
  "\<lbrakk>distinct (map name t); e \<in> set t; e' \<in> set t; name e = name e'\<rbrakk> \<Longrightarrow> e = e'"
  by (auto simp: distinct_map dest: inj_onD)

lemma find_name:
  "find (\<lambda>entry. name entry = n) t = Some e \<Longrightarrow> e \<in> set t \<and> name e = n"
  by (induction t) (auto split: if_splits)

lemma resolves_Nil: "\<not> resolves repo t [] h"
  by (auto elim: resolves.cases)

lemma resolves_Cons:
  "resolves repo t (n # rest) h \<longleftrightarrow>
     (\<exists>e \<in> set t. name e = n \<and>
        ((rest = [] \<and> IsFile e \<and> h = sha e)
         \<or> (IsDirectory e \<and> (\<exists>subTree. ReadTreeObject repo (sha e) = Some subTree
                                         \<and> resolves repo subTree rest h))))"
  by (subst resolves.simps) auto

lemma file_not_directory: "IsFile e \<Longrightarrow> \<not> IsDirectory e"
  by (simp add: IsFile_def IsDirectory_def)

lemma findFileInTreeRecursive_resolves:
  assumes ok: "store_ok repo"
  shows "ReadTreeObject repo ht = Some t \<Longrightarrow>
     \<exists>b. findFileInTreeRecursive False repo t parts = Inr b
          \<and> (\<forall>h. b = Some h \<longleftrightarrow> resolves repo t parts h)"
proof (induction parts arbitrary: ht t)
  case Nil
  then show ?case by (simp add: resolves_Nil)
next
  case (Cons n rest)
  from ok Cons.prems have dist: "distinct (map name t)"
    and names: "\<And>e. e \<in> set t \<Longrightarrow> valid_name (name e)"
    and subs: "\<And>e. e \<in> set t \<Longrightarrow> IsDirectory e \<Longrightarrow> ReadTreeObject repo (sha e) \<noteq> None"
    unfolding store_ok_def by blast+
  show ?case
  proof (cases "find (\<lambda>entry. name entry = n) t")
    case None
    then have "\<And>e. e \<in> set t \<Longrightarrow> name e \<noteq> n" by (auto simp: find_None_iff)
    then have "\<And>h. \<not> resolves repo t (n # rest) h" by (auto simp: resolves_Cons)
    moreover have "findFileInTreeRecursive False repo t (n # rest) = Inr None"
      using None by simp
    ultimately show ?thesis by simp
  next
    case (Some e)
    then have e: "e \<in> set t" "name e = n" using find_name by blast+
    then have n: "n \<noteq> []" using names[of e] by (auto simp: valid_name_def)
    have uniq: "\<And>e'. e' \<in> set t \<Longrightarrow> name e' = n \<Longrightarrow> e' = e"
      using same_name_same_entry[OF dist _ e(1)] e(2) by simp
    have spec: "\<And>h. resolves repo t (n # rest) h \<longleftrightarrow>
        ((rest = [] \<and> IsFile e \<and> h = sha e)
         \<or> (IsDirectory e \<and> (\<exists>subTree. ReadTreeObject repo (sha e) = Some subTree
                                         \<and> resolves repo subTree rest h)))"
      unfolding resolves_Cons using e uniq by blast
    show ?thesis
    proof (cases "rest = []")
      case True
      have "findFileInTreeRecursive False repo t (n # rest) =
              (if IsFile e then Inr (Some (sha e)) else Inr None)"
        using True Some n by simp
      then show ?thesis using True spec by (auto simp: resolves_Nil)
    next
      case False
      show ?thesis
      proof (cases "IsDirectory e")
        case True
        then obtain subTree where sub: "ReadTreeObject repo (sha e) = Some subTree"
          using subs[OF e(1)] by auto
        have code: "findFileInTreeRecursive False repo t (n # rest) =
                findFileInTreeRecursive False repo subTree rest"
          using False Some n True sub by simp
        from Cons.IH[OF sub] obtain b where
          "findFileInTreeRecursive False repo subTree rest = Inr b"
          "\<forall>h. b = Some h \<longleftrightarrow> resolves repo subTree rest h" by blast
        then show ?thesis using code spec False True sub by simp
      next
        case notdir: False
        have "findFileInTreeRecursive False repo t (n # rest) = Inr None"
          using False Some n notdir by simp
        then show ?thesis using spec False notdir by simp
      qed
    qed
  qed
qed

lemma FindFileInTree_walk:
  assumes ok: "store_ok repo" and t: "ReadTreeObject repo ht = Some t"
    and clean: "Clean p = p" and rel: "\<forall>r. p \<noteq> CHR ''/'' # r"
  shows "FindFileInTree Clean False repo t p =
           findFileInTreeRecursive False repo t (Split p (CHR ''/''))"
proof -
  have trim: "TrimPrefix p ''/'' = p" using rel by (cases p) auto
  from ok t have names: "\<And>e. e \<in> set t \<Longrightarrow> valid_name (name e)"
    unfolding store_ok_def by blast
  have dot: "find (\<lambda>entry. name entry = ''.'') t = None"
    using names by (auto simp: find_None_iff valid_name_def)
  show ?thesis
  proof (cases "p = [] \<or> p = ''.''")
    case True
    then show ?thesis
      using dot by (auto simp: FindFileInTree_def Let_def clean trim simp del: TrimPrefix.simps)
  next
    case False
    then show ?thesis
      by (simp add: FindFileInTree_def Let_def clean trim del: TrimPrefix.simps)
  qed
qed

lemma findFileInCommit_file_present:
  assumes ok: "store_ok repo" and t: "ReadTreeObject repo (TreeSHA c) \<noteq> None"
    and clean: "Clean p = p" and rel: "\<forall>r. p \<noteq> CHR ''/'' # r"
  shows "\<exists>b. findFileInCommit Clean False repo c p = Inr b
              \<and> (\<forall>h. b = Some h \<longleftrightarrow> file_present repo c p h)"
proof -
  from t obtain tr where tr: "ReadTreeObject repo (TreeSHA c) = Some tr" by auto
  have code: "findFileInCommit Clean False repo c p =
      findFileInTreeRecursive False repo tr (Split p (CHR ''/''))"
    using FindFileInTree_walk[where Clean = Clean and p = p, OF ok tr clean rel] by (simp add: findFileInCommit_def tr)
  have spec: "\<And>h. file_present repo c p h \<longleftrightarrow> resolves repo tr (Split p (CHR ''/'')) h"
    by (simp add: file_present_def tr path_components_iff)
  from findFileInTreeRecursive_resolves[OF ok tr, of "Split p (CHR ''/'')"]
  show ?thesis using code spec by simp
qed

lemma commitModifiesFile_spec_retains:
  assumes ok: "store_ok repo" and cs: "commits_ok repo [c]"
    and clean: "Clean p = p" and rel: "\<forall>r. p \<noteq> CHR ''/'' # r"
  shows "commitModifiesFile Clean False repo c p = Inr (spec_retains repo p c)"
proof -
  from cs have ct: "ReadTreeObject repo (TreeSHA c) \<noteq> None"
    and par: "\<And>q. q \<in> set (ParentSHAs c) \<Longrightarrow> \<exists>pc. ReadCommitObject repo q = Some pc
                 \<and> ReadTreeObject repo (TreeSHA pc) \<noteq> None"
    by (auto simp: commits_ok_def)
  from findFileInCommit_file_present[where Clean = Clean and p = p, OF ok ct clean rel] obtain cur where
    cur: "findFileInCommit Clean False repo c p = Inr cur"
    and curp: "\<And>h. cur = Some h \<longleftrightarrow> file_present repo c p h" by blast
  show ?thesis
  proof (cases "ParentSHAs c = []")
    case True
    have "cur \<noteq> None \<longleftrightarrow> (\<exists>h. file_present repo c p h)" using curp by auto
    then show ?thesis using True by (simp add: commitModifiesFile_def cur spec_retains_def)
  next
    case False
    have "parents_loop Clean False repo p cur (ParentSHAs c) \<longleftrightarrow> spec_retains repo p c"
      unfolding parents_loop_iff spec_retains_def if_not_P[OF False]
    proof (intro bex_cong refl)
      fix q assume "q \<in> set (ParentSHAs c)"
      with par obtain pc where pc: "ReadCommitObject repo q = Some pc"
        and pt: "ReadTreeObject repo (TreeSHA pc) \<noteq> None" by blast
      from findFileInCommit_file_present[where Clean = Clean and p = p, OF ok pt clean rel] obtain b where
        b: "findFileInCommit Clean False repo pc p = Inr b"
        and bp: "\<And>h. b = Some h \<longleftrightarrow> file_present repo pc p h" by blast
      have "b \<noteq> cur \<longleftrightarrow>
          ((\<exists>h h'. file_present repo c p h \<and> file_present repo pc p h' \<and> h \<noteq> h')
           \<or> ((\<exists>h. file_present repo c p h) \<and> \<not> (\<exists>h'. file_present repo pc p h'))
           \<or> (\<not> (\<exists>h. file_present repo c p h) \<and> (\<exists>h'. file_present repo pc p h')))"
        unfolding curp[symmetric] bp[symmetric] by (cases b; cases cur) auto
      then show "(case ReadCommitObject repo q of None \<Rightarrow> True
          | Some parentCommit \<Rightarrow>
              (case findFileInCommit Clean False repo parentCommit p of
                 Inl err \<Rightarrow> False | Inr parentBlob \<Rightarrow> parentBlob \<noteq> cur))
         \<longleftrightarrow> (\<exists>parentCommit. ReadCommitObject repo q = Some parentCommit
              \<and> ((\<exists>h h'. file_present repo c p h \<and> file_present repo parentCommit p h' \<and> h \<noteq> h')
                   \<or> ((\<exists>h. file_present repo c p h) \<and> \<not> (\<exists>h'. file_present repo parentCommit p h'))
                   \<or> (\<not> (\<exists>h. file_present repo c p h) \<and> (\<exists>h'. file_present repo parentCommit p h'))))"
        by (simp add: pc b)
    qed
    with False show ?thesis by (simp add: commitModifiesFile_def cur)
  qed
qed

text \<open>
  Claim C9. Filtering a commit sequence by a file path retains exactly those commits whose
  tree at that path has a blob digest differing from at least one parent's tree at the same
  path, including commits where the file appears or disappears relative to a parent; for a
  zero-parent (initial) commit the file's presence in its tree suffices; and resolving the
  path walks tree objects component by component, where a blob component with path
  components remaining yields not found. The path given is not empty and cleans to the
  repository-relative path \<open>p\<close>, with or without a leading \<open>/\<close>; the context is not
  cancelled and the object store is well formed. The first conjunct is the filter, the
  second says that the lookup of the filter finds exactly the file at the path, the third
  that the walk over the components finds exactly what path resolution finds, the fourth
  is the file entry with components remaining.
\<close>

theorem file_history_filter:
  assumes "filePath \<noteq> []"
    and "Clean filePath = p \<or> Clean filePath = CHR ''/'' # p"
    and "Clean p = p" and "\<forall>r. p \<noteq> CHR ''/'' # r"
    and "store_ok repo" and "commits_ok repo commitList"
  shows
   "FilterByFile Clean False repo commitList filePath =
      (filter (spec_retains repo p) commitList, None)
    \<and> (ReadTreeObject repo (TreeSHA c) \<noteq> None \<longrightarrow>
         (\<exists>b. findFileInCommit Clean False repo c p = Inr b
              \<and> (\<forall>h. b = Some h \<longleftrightarrow> file_present repo c p h)))
    \<and> (ReadTreeObject repo ht = Some t \<longrightarrow>
         (\<exists>b. findFileInTreeRecursive False repo t parts = Inr b
              \<and> (\<forall>h. b = Some h \<longleftrightarrow> resolves repo t parts h)))
    \<and> (ReadTreeObject repo ht = Some t \<and> e \<in> set t \<and> IsFile e \<and> rest \<noteq> [] \<longrightarrow>
         findFileInTreeRecursive False repo t (name e # rest) = Inr None)"
proof -
  have trim: "TrimPrefix (Clean filePath) ''/'' = p"
    using assms(2,4) by (cases p) auto
  have each: "\<And>c. c \<in> set commitList \<Longrightarrow>
      commitModifiesFile Clean False repo c p = Inr (spec_retains repo p c)"
  proof -
    fix c assume "c \<in> set commitList"
    with assms(6) have "commits_ok repo [c]" by (simp add: commits_ok_def)
    then show "commitModifiesFile Clean False repo c p = Inr (spec_retains repo p c)"
      by (rule commitModifiesFile_spec_retains[where Clean = Clean and p = p,
            OF assms(5) _ assms(3) assms(4)])
  qed
  have "filter (\<lambda>c. commitModifiesFile Clean False repo c p = Inr True) commitList
          = filter (spec_retains repo p) commitList"
    by (rule filter_cong) (simp_all add: each)
  then have main: "FilterByFile Clean False repo commitList filePath =
      (filter (spec_retains repo p) commitList, None)"
    using assms(1) trim
    by (simp add: FilterByFile_def Let_def FilterByFile_loop_filter del: TrimPrefix.simps)
  have link: "ReadTreeObject repo (TreeSHA c) \<noteq> None \<Longrightarrow>
         (\<exists>b. findFileInCommit Clean False repo c p = Inr b
              \<and> (\<forall>h. b = Some h \<longleftrightarrow> file_present repo c p h))"
    by (rule findFileInCommit_file_present[where Clean = Clean and p = p,
          OF assms(5) _ assms(3) assms(4)])
  have walk: "ReadTreeObject repo ht = Some t \<Longrightarrow>
         (\<exists>b. findFileInTreeRecursive False repo t parts = Inr b
              \<and> (\<forall>h. b = Some h \<longleftrightarrow> resolves repo t parts h))"
    by (rule findFileInTreeRecursive_resolves[OF assms(5)])
  have blob: "findFileInTreeRecursive False repo t (name e # rest) = Inr None"
    if rd: "ReadTreeObject repo ht = Some t" and e: "e \<in> set t" and f: "IsFile e" and r: "rest \<noteq> []"
  proof -
    from assms(5) rd have dist: "distinct (map name t)"
      and names: "\<And>e. e \<in> set t \<Longrightarrow> valid_name (name e)"
      unfolding store_ok_def by blast+
    have "find (\<lambda>entry. name entry = name e) t \<noteq> None"
      using e by (auto simp: find_None_iff)
    then obtain e' where e': "find (\<lambda>entry. name entry = name e) t = Some e'" by auto
    then have "e' \<in> set t" "name e' = name e" using find_name by blast+
    then have "e' = e" using same_name_same_entry[OF dist _ e] by simp
    moreover have "name e \<noteq> []" using names[OF e] by (auto simp: valid_name_def)
    ultimately show ?thesis using e' r f file_not_directory[OF f] by simp
  qed
  show ?thesis using main link walk blob by blast
qed

theorem file_history_filter_witness:
  "FilterByFile (\<lambda>p. p) False history_repo
      [\<lparr>TreeSHA = ''t2'', ParentSHAs = [''c1''], Author = ''T'', Committer = ''T'', Message = ''two''\<rparr>,
       \<lparr>TreeSHA = ''t1'', ParentSHAs = [''c0''], Author = ''T'', Committer = ''T'', Message = ''one''\<rparr>,
       \<lparr>TreeSHA = ''t0'', ParentSHAs = [], Author = ''T'', Committer = ''T'', Message = ''zero''\<rparr>]
      ''/src/main.go''
    = ([\<lparr>TreeSHA = ''t1'', ParentSHAs = [''c0''], Author = ''T'', Committer = ''T'', Message = ''one''\<rparr>,
        \<lparr>TreeSHA = ''t0'', ParentSHAs = [], Author = ''T'', Committer = ''T'', Message = ''zero''\<rparr>], None)
   \<and> filter (spec_retains history_repo ''src/main.go'')
      [\<lparr>TreeSHA = ''t2'', ParentSHAs = [''c1''], Author = ''T'', Committer = ''T'', Message = ''two''\<rparr>,
       \<lparr>TreeSHA = ''t1'', ParentSHAs = [''c0''], Author = ''T'', Committer = ''T'', Message = ''one''\<rparr>,
       \<lparr>TreeSHA = ''t0'', ParentSHAs = [], Author = ''T'', Committer = ''T'', Message = ''zero''\<rparr>]
    = [\<lparr>TreeSHA = ''t1'', ParentSHAs = [''c0''], Author = ''T'', Committer = ''T'', Message = ''one''\<rparr>,
       \<lparr>TreeSHA = ''t0'', ParentSHAs = [], Author = ''T'', Committer = ''T'', Message = ''zero''\<rparr>]
   \<and> findFileInCommit (\<lambda>p. p) False history_repo
        \<lparr>TreeSHA = ''t2'', ParentSHAs = [''c1''], Author = ''T'', Committer = ''T'', Message = ''two''\<rparr>
        ''src/main.go'' = Inr (Some ''b2'')
   \<and> file_present history_repo
        \<lparr>TreeSHA = ''t2'', ParentSHAs = [''c1''], Author = ''T'', Committer = ''T'', Message = ''two''\<rparr>
        ''src/main.go'' ''b2''
   \<and> resolves history_repo
        [\<lparr>kind = FileEntry, name = ''README'', sha = ''b9''\<rparr>,
         \<lparr>kind = DirectoryEntry, name = ''src'', sha = ''s1''\<rparr>] [''src'', ''main.go''] ''b2''
   \<and> findFileInTreeRecursive False history_repo
        [\<lparr>kind = FileEntry, name = ''README'', sha = ''b9''\<rparr>,
         \<lparr>kind = DirectoryEntry, name = ''src'', sha = ''s1''\<rparr>] [''README'', ''main.go'']
      = Inr None"
proof -
  let ?c2 = "\<lparr>TreeSHA = ''t2'', ParentSHAs = [''c1''], Author = ''T'', Committer = ''T'', Message = ''two''\<rparr>"
  let ?c1 = "\<lparr>TreeSHA = ''t1'', ParentSHAs = [''c0''], Author = ''T'', Committer = ''T'', Message = ''one''\<rparr>"
  let ?c0 = "\<lparr>TreeSHA = ''t0'', ParentSHAs = [], Author = ''T'', Committer = ''T'', Message = ''zero''\<rparr>"
  let ?readme = "\<lparr>kind = FileEntry, name = ''README'', sha = ''b9''\<rparr>"
  let ?t2 = "[?readme, \<lparr>kind = DirectoryEntry, name = ''src'', sha = ''s1''\<rparr>]"
  have h1: "''/src/main.go'' \<noteq> []" by simp
  have h2: "(\<lambda>p. p) ''/src/main.go'' = ''src/main.go''
            \<or> (\<lambda>p. p) ''/src/main.go'' = CHR ''/'' # ''src/main.go''" by simp
  have h3: "(\<lambda>p. p) ''src/main.go'' = ''src/main.go''" by simp
  have h4: "\<forall>r. ''src/main.go'' \<noteq> CHR ''/'' # r" by simp
  have h5: "store_ok history_repo"
    by (auto simp: store_ok_def history_repo_def ReadTreeObject_def valid_name_def
          IsDirectory_def split: if_splits)
  have h6: "commits_ok history_repo [?c2, ?c1, ?c0]"
    by (simp add: commits_ok_def history_repo_def ReadTreeObject_def ReadCommitObject_def)
  note inst = file_history_filter[where Clean = "\<lambda>p. p" and filePath = "''/src/main.go''"
      and p = "''src/main.go''" and repo = history_repo and commitList = "[?c2, ?c1, ?c0]"
      and c = ?c2 and ht = "''t2''" and t = ?t2 and parts = "[''src'', ''main.go'']"
      and e = ?readme and rest = "[''main.go'']", OF h1 h2 h3 h4 h5 h6]
  have run: "FilterByFile (\<lambda>p. p) False history_repo [?c2, ?c1, ?c0] ''/src/main.go''
      = ([?c1, ?c0], None)"
    by (simp add: FilterByFile_def Let_def commitModifiesFile_def findFileInCommit_def
        FindFileInTree_def ReadTreeObject_def ReadCommitObject_def history_repo_def
        IsFile_def IsDirectory_def)
  have look: "findFileInCommit (\<lambda>p. p) False history_repo ?c2 ''src/main.go'' = Inr (Some ''b2'')"
    by (simp add: findFileInCommit_def FindFileInTree_def ReadTreeObject_def history_repo_def
        IsFile_def IsDirectory_def)
  have walk: "findFileInTreeRecursive False history_repo ?t2 [''src'', ''main.go''] = Inr (Some ''b2'')"
    by (simp add: ReadTreeObject_def history_repo_def IsFile_def IsDirectory_def)
  have rd: "ReadTreeObject history_repo ''t2'' = Some ?t2"
    by (simp add: ReadTreeObject_def history_repo_def)
  have rd2: "ReadTreeObject history_repo (TreeSHA ?c2) \<noteq> None"
    by (simp add: ReadTreeObject_def history_repo_def)
  from inst have a: "FilterByFile (\<lambda>p. p) False history_repo [?c2, ?c1, ?c0] ''/src/main.go''
      = (filter (spec_retains history_repo ''src/main.go'') [?c2, ?c1, ?c0], None)" by (rule conjunct1)
  from inst rd2 have b: "\<exists>b. findFileInCommit (\<lambda>p. p) False history_repo ?c2 ''src/main.go'' = Inr b
              \<and> (\<forall>h. b = Some h \<longleftrightarrow> file_present history_repo ?c2 ''src/main.go'' h)" by blast
  from inst rd have c: "\<exists>b. findFileInTreeRecursive False history_repo ?t2 [''src'', ''main.go''] = Inr b
              \<and> (\<forall>h. b = Some h \<longleftrightarrow> resolves history_repo ?t2 [''src'', ''main.go''] h)" by blast
  have d: "findFileInTreeRecursive False history_repo ?t2 (name ?readme # [''main.go'']) = Inr None"
    using inst rd by (simp add: IsFile_def)
  have a': "filter (spec_retains history_repo ''src/main.go'') [?c2, ?c1, ?c0] = [?c1, ?c0]"
    using a run by simp
  have b': "file_present history_repo ?c2 ''src/main.go'' ''b2''" using b look by auto
  have c': "resolves history_repo ?t2 [''src'', ''main.go''] ''b2''" using c walk by auto
  have d': "findFileInTreeRecursive False history_repo ?t2 [''README'', ''main.go''] = Inr None"
    using d by simp
  show ?thesis using run a' look b' c' d' by blast
qed

section \<open>Properties of the merge commits\<close>

lemma WriteTree_stored:
  "WriteTree ext repo t = Inr (h, repo') \<Longrightarrow>
     h = HashTree ext t \<and> repo' = repo\<lparr>stored_trees := (stored_trees repo)(HashTree ext t \<mapsto> t)\<rparr>"
  by (auto simp: WriteTree_def split: if_splits)

lemma WriteCommit_stored:
  "WriteCommit ext repo c = Inr (h, repo') \<Longrightarrow>
     HashCommit ext c = Some h \<and> repo' = repo\<lparr>stored_commits := (h, c) # stored_commits repo\<rparr>"
  by (auto simp: WriteCommit_def split: option.splits if_splits)

lemma createMergeCommit_result:
  assumes "createMergeCommit ext repo mergeCtx mergedTree = Inr (mergeCommit, repo')"
  shows "\<exists>ourSHA theirSHA theirCommit others commitSHA.
           HashCommit ext (OurCommit mergeCtx) = Some ourSHA
         \<and> TheirCommits mergeCtx = theirCommit # others
         \<and> HashCommit ext theirCommit = Some theirSHA
         \<and> mergeCommit = \<lparr>TreeSHA = HashTree ext mergedTree, ParentSHAs = [ourSHA, theirSHA],
                           Author = Author (OurCommit mergeCtx),
                           Committer = Committer (OurCommit mergeCtx),
                           Message = (if ConfigMessage (Config mergeCtx) = []
                                      then ''Merge commit '' @ Short ext theirSHA @ '' into HEAD''
                                      else ConfigMessage (Config mergeCtx))\<rparr>
         \<and> HashCommit ext mergeCommit = Some commitSHA
         \<and> repo' = repo\<lparr>stored_trees := (stored_trees repo)(HashTree ext mergedTree \<mapsto> mergedTree),
                         stored_commits := (commitSHA, mergeCommit) # stored_commits repo\<rparr>"
proof -
  from assms obtain treeSHA repo1 where wt: "WriteTree ext repo mergedTree = Inr (treeSHA, repo1)"
    by (auto simp: createMergeCommit_def split: sum.splits)
  from assms wt obtain ourSHA where os: "HashCommit ext (OurCommit mergeCtx) = Some ourSHA"
    by (auto simp: createMergeCommit_def split: option.splits)
  from assms wt os obtain theirCommit others where tc: "TheirCommits mergeCtx = theirCommit # others"
    by (auto simp: createMergeCommit_def split: list.splits)
  from assms wt os tc obtain theirSHA where ts: "HashCommit ext theirCommit = Some theirSHA"
    by (auto simp: createMergeCommit_def split: option.splits)
  let ?mc = "\<lparr>TreeSHA = treeSHA, ParentSHAs = [ourSHA, theirSHA],
                           Author = Author (OurCommit mergeCtx),
                           Committer = Committer (OurCommit mergeCtx),
                           Message = (if ConfigMessage (Config mergeCtx) = []
                                      then ''Merge commit '' @ Short ext theirSHA @ '' into HEAD''
                                      else ConfigMessage (Config mergeCtx))\<rparr>"
  from assms wt os tc ts obtain commitSHA repo2 where
    wc: "WriteCommit ext repo1 ?mc = Inr (commitSHA, repo2)"
    by (auto simp: createMergeCommit_def Let_def split: sum.splits)
  from assms wt os tc ts wc have res: "mergeCommit = ?mc" "repo' = repo2"
    by (auto simp: createMergeCommit_def Let_def split: if_splits)
  from WriteTree_stored[OF wt] WriteCommit_stored[OF wc] res os tc ts
  show ?thesis by auto
qed

lemma ThreeWayMerger_Merge_commit:
  assumes m: "ThreeWayMerger_Merge ext iter repo mergeCtx = Inr (result, repo')"
    and s: "Success result" and nc: "Mode (Config mergeCtx) \<noteq> ModeNoCommit"
  shows "\<exists>ourTree theirTree baseTree mergeCommit.
           ThreeWayMerger_CanMerge mergeCtx
         \<and> ReadTreeObject repo (TreeSHA (OurCommit mergeCtx)) = Some ourTree
         \<and> ReadTreeObject repo (TreeSHA (hd (TheirCommits mergeCtx))) = Some theirTree
         \<and> ReadTreeObject repo (TreeSHA (the (BaseCommit mergeCtx))) = Some baseTree
         \<and> createMergeCommit ext repo mergeCtx
              (NewTree ext (fst (mergeTrees (stored_blobs repo) (NewRelativePath ext)
                                   (allPathsOrder iter) baseTree ourTree theirTree)))
             = Inr (mergeCommit, repo')
         \<and> HashCommit ext mergeCommit = Some (CommitSHA result)"
proof -
  from m have cm: "ThreeWayMerger_CanMerge mergeCtx"
    by (auto simp: ThreeWayMerger_Merge_def split: if_splits)
  from m cm obtain ourTree where ot: "ReadTreeObject repo (TreeSHA (OurCommit mergeCtx)) = Some ourTree"
    by (auto simp: ThreeWayMerger_Merge_def Let_def split: option.splits)
  from m cm ot obtain theirTree where
    tt: "ReadTreeObject repo (TreeSHA (hd (TheirCommits mergeCtx))) = Some theirTree"
    by (auto simp: ThreeWayMerger_Merge_def Let_def split: option.splits)
  from m cm ot tt obtain baseTree where
    bt: "ReadTreeObject repo (TreeSHA (the (BaseCommit mergeCtx))) = Some baseTree"
    by (auto simp: ThreeWayMerger_Merge_def Let_def split: option.splits)
  obtain mergedEntries conflicts where mt:
    "mergeTrees (stored_blobs repo) (NewRelativePath ext) (allPathsOrder iter) baseTree ourTree theirTree
       = (mergedEntries, conflicts)"
    by (cases "mergeTrees (stored_blobs repo) (NewRelativePath ext) (allPathsOrder iter) baseTree ourTree theirTree")
  have zs: "\<not> Success zeroResult" by (simp add: zeroResult_def)
  from m cm ot tt bt mt s nc zs have noconf: "conflicts = []"
    by (auto simp: ThreeWayMerger_Merge_def Let_def split: if_splits sum.splits option.splits)
  from m cm ot tt bt mt nc noconf obtain mergeCommit where
    cmc: "createMergeCommit ext repo mergeCtx (NewTree ext mergedEntries) = Inr (mergeCommit, repo')"
    and hc: "HashCommit ext mergeCommit = Some (CommitSHA result)"
    by (auto simp: ThreeWayMerger_Merge_def Let_def split: if_splits sum.splits option.splits)
  from cm ot tt bt mt cmc hc show ?thesis by auto
qed

lemma ReadCommitObject_written:
  "ReadCommitObject (repo\<lparr>stored_trees := ts, stored_commits := (h, c) # cs\<rparr>) h = Some c"
  by (simp add: ReadCommitObject_def)

lemma ReadTreeObject_written:
  "ReadTreeObject (repo\<lparr>stored_trees := (stored_trees repo)(h \<mapsto> t), stored_commits := cs\<rparr>) h = Some t"
  by (simp add: ReadTreeObject_def)

lemma example_mergeTrees:
  "mergeTrees Map.empty (\<lambda>p. p) [''f'', ''g'']
      [\<lparr>kind = FileEntry, name = ''f'', sha = ''1''\<rparr>]
      [\<lparr>kind = FileEntry, name = ''f'', sha = ''1''\<rparr>, \<lparr>kind = FileEntry, name = ''g'', sha = ''2''\<rparr>]
      [\<lparr>kind = FileEntry, name = ''f'', sha = ''3''\<rparr>]
   = ([\<lparr>kind = FileEntry, name = ''f'', sha = ''3''\<rparr>, \<lparr>kind = FileEntry, name = ''g'', sha = ''2''\<rparr>], [])"
  by (simp add: mergeTrees_def treeToMap_def mergeEntry_def)

lemma example_trees:
  "ReadTreeObject squash_repo ''t0'' = Some [\<lparr>kind = FileEntry, name = ''f'', sha = ''1''\<rparr>]"
  "ReadTreeObject squash_repo ''t1'' =
     Some [\<lparr>kind = FileEntry, name = ''f'', sha = ''1''\<rparr>, \<lparr>kind = FileEntry, name = ''g'', sha = ''2''\<rparr>]"
  "ReadTreeObject squash_repo ''t2'' = Some [\<lparr>kind = FileEntry, name = ''f'', sha = ''3''\<rparr>]"
  by (simp_all add: ReadTreeObject_def squash_repo_def)

lemma example_three_way:
  "ThreeWayMerger_Merge squash_ext squash_iter squash_repo merge_ctx =
     Inr (\<lparr>Success = True, FastForward = False, CommitSHA = ''merge'', Conflicts = [],
            FilesChanged = 0, Insertions = 0, Deletions = 0,
            ResultMessage = ''Merge commit merge created''\<rparr>,
          squash_repo\<lparr>stored_trees := (stored_trees squash_repo)(''32'' \<mapsto>
               [\<lparr>kind = FileEntry, name = ''f'', sha = ''3''\<rparr>, \<lparr>kind = FileEntry, name = ''g'', sha = ''2''\<rparr>]),
             stored_commits := (''merge'',
               \<lparr>TreeSHA = ''32'', ParentSHAs = [''ours'', ''theirs''], Author = ''T'',
                 Committer = ''T'', Message = ''merge''\<rparr>) # stored_commits squash_repo\<rparr>)"
proof -
  have b: "stored_blobs squash_repo = Map.empty" "write_ok squash_repo" "init_ok squash_repo"
    by (simp_all add: squash_repo_def)
  have cmc: "createMergeCommit squash_ext squash_repo merge_ctx
       [\<lparr>kind = FileEntry, name = ''f'', sha = ''3''\<rparr>, \<lparr>kind = FileEntry, name = ''g'', sha = ''2''\<rparr>]
     = Inr (\<lparr>TreeSHA = ''32'', ParentSHAs = [''ours'', ''theirs''], Author = ''T'',
                 Committer = ''T'', Message = ''merge''\<rparr>,
            squash_repo\<lparr>stored_trees := (stored_trees squash_repo)(''32'' \<mapsto>
               [\<lparr>kind = FileEntry, name = ''f'', sha = ''3''\<rparr>, \<lparr>kind = FileEntry, name = ''g'', sha = ''2''\<rparr>]),
             stored_commits := (''merge'',
               \<lparr>TreeSHA = ''32'', ParentSHAs = [''ours'', ''theirs''], Author = ''T'',
                 Committer = ''T'', Message = ''merge''\<rparr>) # stored_commits squash_repo\<rparr>)"
    by (simp add: createMergeCommit_def WriteTree_def WriteCommit_def squash_ext_def merge_ctx_def b
        Let_def Initialize_def NewManager_def)
  show ?thesis
    unfolding ThreeWayMerger_Merge_def
    by (simp add: ThreeWayMerger_CanMerge_def merge_ctx_def[symmetric] Let_def)
       (simp add: merge_ctx_def example_trees b squash_ext_def squash_iter_def example_mergeTrees
          cmc[unfolded merge_ctx_def squash_ext_def] zeroResult_def)
qed

lemma example_merge_base:
  "FindMergeBases (NewManager squash_repo) [''base''] ''ours'' ''theirs'' =
     Inr [(''base'', \<lparr>TreeSHA = ''t0'', ParentSHAs = [], Author = ''T'', Committer = ''T'', Message = ''base''\<rparr>)]"
proof -
  have a1: "getAncestors (NewManager squash_repo) ''ours'' = {''base'', ''ours''}"
    by (simp add: getAncestors_def GetCommit_def NewManager_def squash_repo_def insert_commute)
  have a2: "getAncestors (NewManager squash_repo) ''theirs'' = {''base'', ''theirs''}"
    by (simp add: getAncestors_def GetCommit_def NewManager_def squash_repo_def insert_commute)
  have ca: "commonAncestors (NewManager squash_repo) ''ours'' ''theirs'' = {''base''}"
    unfolding commonAncestors_def Let_def a1 a2 by auto
  show ?thesis
    by (simp add: FindMergeBases_def FindMergeBase_def ca Initialize_def)
       (simp add: GetCommit_def NewManager_def squash_repo_def)
qed

lemma squash_commit_shape:
  assumes m: "SquashMerger_Merge ext iter repo mergeCtx = Inr (result, repo')"
    and s: "Success result"
  shows "\<exists>ourSHA squashCommit.
           HashCommit ext (OurCommit mergeCtx) = Some ourSHA
         \<and> ReadCommitObject repo' (CommitSHA result) = Some squashCommit
         \<and> ParentSHAs squashCommit = [ourSHA]
         \<and> TreeSHA squashCommit = TreeSHA (hd (TheirCommits mergeCtx))"
proof -
  let ?ctx = "\<lparr>OurCommit = OurCommit mergeCtx, TheirCommits = TheirCommits mergeCtx,
               BaseCommit = BaseCommit mergeCtx, Config = (Config mergeCtx)\<lparr>Mode := ModeNoCommit\<rparr>\<rparr>"
  from m have cm: "SquashMerger_CanMerge mergeCtx"
    by (auto simp: SquashMerger_Merge_def split: if_splits)
  from m cm obtain r1 repo1 where rm: "RecursiveMerger_Merge ext iter repo ?ctx = Inr (r1, repo1)"
    by (auto simp: SquashMerger_Merge_def Let_def split: sum.splits)
  have "Success r1"
  proof (rule ccontr)
    assume "\<not> Success r1"
    with m cm rm have "result = r1" by (auto simp: SquashMerger_Merge_def Let_def)
    with s \<open>\<not> Success r1\<close> show False by simp
  qed
  with m cm rm obtain ourSHA theirSHA commitSHA repo2 msg where
    os: "HashCommit ext (OurCommit mergeCtx) = Some ourSHA"
    and wc: "WriteCommit ext repo1 \<lparr>TreeSHA = TreeSHA (hd (TheirCommits mergeCtx)), ParentSHAs = [ourSHA],
                Author = Author (OurCommit mergeCtx), Committer = Committer (OurCommit mergeCtx),
                Message = msg\<rparr> = Inr (commitSHA, repo2)"
    and res: "CommitSHA result = commitSHA" "repo' = repo2"
    by (auto simp: SquashMerger_Merge_def Let_def zeroResult_def split: option.splits sum.splits)
  from WriteCommit_stored[OF wc] res have
    "ReadCommitObject repo' (CommitSHA result) = Some \<lparr>TreeSHA = TreeSHA (hd (TheirCommits mergeCtx)),
        ParentSHAs = [ourSHA], Author = Author (OurCommit mergeCtx),
        Committer = Committer (OurCommit mergeCtx), Message = msg\<rparr>"
    by (simp add: ReadCommitObject_def)
  with os show ?thesis by auto
qed

lemma createMergeCommit_writes:
  assumes w: "write_ok repo" and i: "init_ok repo"
    and o: "HashCommit ext (OurCommit mergeCtx) = Some ourSHA"
    and ne: "TheirCommits mergeCtx \<noteq> []"
    and t: "HashCommit ext (hd (TheirCommits mergeCtx)) = Some theirSHA"
    and mc: "mergeCommit = \<lparr>TreeSHA = HashTree ext mergedTree, ParentSHAs = [ourSHA, theirSHA],
                           Author = Author (OurCommit mergeCtx),
                           Committer = Committer (OurCommit mergeCtx),
                           Message = (if ConfigMessage (Config mergeCtx) = []
                                      then ''Merge commit '' @ Short ext theirSHA @ '' into HEAD''
                                      else ConfigMessage (Config mergeCtx))\<rparr>"
    and h: "HashCommit ext mergeCommit = Some commitSHA"
  shows "createMergeCommit ext repo mergeCtx mergedTree =
           Inr (mergeCommit,
                repo\<lparr>stored_trees := (stored_trees repo)(HashTree ext mergedTree \<mapsto> mergedTree),
                     stored_commits := (commitSHA, mergeCommit) # stored_commits repo\<rparr>)"
proof -
  from ne obtain theirCommit others where tc: "TheirCommits mergeCtx = theirCommit # others"
    by (cases "TheirCommits mergeCtx") auto
  with t have t': "HashCommit ext theirCommit = Some theirSHA" by simp
  have wt: "WriteTree ext repo mergedTree =
      Inr (HashTree ext mergedTree,
           repo\<lparr>stored_trees := (stored_trees repo)(HashTree ext mergedTree \<mapsto> mergedTree)\<rparr>)"
    using w by (simp add: WriteTree_def)
  have wc: "WriteCommit ext
       (repo\<lparr>stored_trees := (stored_trees repo)(HashTree ext mergedTree \<mapsto> mergedTree)\<rparr>) mergeCommit =
      Inr (commitSHA,
           repo\<lparr>stored_trees := (stored_trees repo)(HashTree ext mergedTree \<mapsto> mergedTree),
                stored_commits := (commitSHA, mergeCommit) # stored_commits repo\<rparr>)"
    using w h by (simp add: WriteCommit_def)
  show ?thesis
    unfolding createMergeCommit_def
    by (simp add: wt o tc t' Let_def mc[symmetric] wc Initialize_def NewManager_def i)
qed

lemma ThreeWayMerger_Merge_creates:
  assumes can: "ThreeWayMerger_CanMerge mergeCtx"
    and ot: "ReadTreeObject repo (TreeSHA (OurCommit mergeCtx)) = Some ourTree"
    and tt: "ReadTreeObject repo (TreeSHA (hd (TheirCommits mergeCtx))) = Some theirTree"
    and bt: "ReadTreeObject repo (TreeSHA (the (BaseCommit mergeCtx))) = Some baseTree"
    and mt: "mergeTrees (stored_blobs repo) (NewRelativePath ext) (allPathsOrder iter)
               baseTree ourTree theirTree = (mergedEntries, [])"
    and mode: "Mode (Config mergeCtx) \<noteq> ModeNoCommit"
    and cmc: "createMergeCommit ext repo mergeCtx (NewTree ext mergedEntries) = Inr (mergeCommit, repo2)"
    and h: "HashCommit ext mergeCommit = Some commitSHA"
  shows "ThreeWayMerger_Merge ext iter repo mergeCtx =
           Inr (zeroResult\<lparr>Success := True, FastForward := False, CommitSHA := commitSHA,
                   ResultMessage := ''Merge commit '' @ Short ext commitSHA @ '' created''\<rparr>, repo2)"
  unfolding ThreeWayMerger_Merge_def
  by (simp add: can Let_def ot tt bt mt mode cmc h)

text \<open>
  Claim C5. A successful non-fast-forward three-way merge creates a commit whose parent
  list is exactly \<open>[HEAD, MERGE_HEAD]\<close> in that order and whose root tree is the merged tree
  that was written to the object store. The first conjunct is \<open>createMergeCommit\<close> when it
  returns a commit, the second the whole of \<open>ThreeWayMerger.Merge\<close> when it creates a
  commit. The third conjunct says that they do return: when the store can be written, the
  commit manager initializes and the commits hash, \<open>createMergeCommit\<close> writes the tree
  and the commit with the parents \<open>[HEAD, MERGE_HEAD]\<close>, and a merge without conflicts
  succeeds with that commit.
\<close>

theorem merge_commit_parents_and_tree:
  "(createMergeCommit ext repo mergeCtx mergedTree = Inr (mergeCommit, repo1) \<longrightarrow>
      (\<exists>ourSHA theirSHA.
          HashCommit ext (OurCommit mergeCtx) = Some ourSHA
        \<and> HashCommit ext (hd (TheirCommits mergeCtx)) = Some theirSHA
        \<and> ParentSHAs mergeCommit = [ourSHA, theirSHA]
        \<and> TreeSHA mergeCommit = HashTree ext mergedTree
        \<and> ReadTreeObject repo1 (TreeSHA mergeCommit) = Some mergedTree))
   \<and> (ThreeWayMerger_Merge ext iter repo mergeCtx = Inr (result, repo2) \<and> Success result
        \<and> Mode (Config mergeCtx) \<noteq> ModeNoCommit \<longrightarrow>
      (\<exists>commit ourSHA theirSHA ourTree theirTree baseTree.
          ReadCommitObject repo2 (CommitSHA result) = Some commit
        \<and> HashCommit ext (OurCommit mergeCtx) = Some ourSHA
        \<and> HashCommit ext (hd (TheirCommits mergeCtx)) = Some theirSHA
        \<and> ParentSHAs commit = [ourSHA, theirSHA]
        \<and> ReadTreeObject repo (TreeSHA (OurCommit mergeCtx)) = Some ourTree
        \<and> ReadTreeObject repo (TreeSHA (hd (TheirCommits mergeCtx))) = Some theirTree
        \<and> ReadTreeObject repo (TreeSHA (the (BaseCommit mergeCtx))) = Some baseTree
        \<and> ReadTreeObject repo2 (TreeSHA commit) =
            Some (NewTree ext (fst (mergeTrees (stored_blobs repo) (NewRelativePath ext)
                                      (allPathsOrder iter) baseTree ourTree theirTree)))))
   \<and> (write_ok repo \<and> init_ok repo
        \<and> HashCommit ext (OurCommit mergeCtx) = Some headSHA
        \<and> TheirCommits mergeCtx \<noteq> []
        \<and> HashCommit ext (hd (TheirCommits mergeCtx)) = Some mergeHeadSHA
        \<and> created = \<lparr>TreeSHA = HashTree ext tree, ParentSHAs = [headSHA, mergeHeadSHA],
                       Author = Author (OurCommit mergeCtx),
                       Committer = Committer (OurCommit mergeCtx),
                       Message = (if ConfigMessage (Config mergeCtx) = []
                                  then ''Merge commit '' @ Short ext mergeHeadSHA @ '' into HEAD''
                                  else ConfigMessage (Config mergeCtx))\<rparr>
        \<and> HashCommit ext created = Some commitSHA
        \<and> written = repo\<lparr>stored_trees := (stored_trees repo)(HashTree ext tree \<mapsto> tree),
                          stored_commits := (commitSHA, created) # stored_commits repo\<rparr> \<longrightarrow>
      createMergeCommit ext repo mergeCtx tree = Inr (created, written)
      \<and> ReadCommitObject written commitSHA = Some created
      \<and> ReadTreeObject written (TreeSHA created) = Some tree
      \<and> (ThreeWayMerger_CanMerge mergeCtx
           \<and> ReadTreeObject repo (TreeSHA (OurCommit mergeCtx)) = Some oursTree
           \<and> ReadTreeObject repo (TreeSHA (hd (TheirCommits mergeCtx))) = Some theirsTree
           \<and> ReadTreeObject repo (TreeSHA (the (BaseCommit mergeCtx))) = Some commonTree
           \<and> mergeTrees (stored_blobs repo) (NewRelativePath ext) (allPathsOrder iter)
                commonTree oursTree theirsTree = (mergedEntries, [])
           \<and> NewTree ext mergedEntries = tree
           \<and> Mode (Config mergeCtx) \<noteq> ModeNoCommit \<longrightarrow>
          ThreeWayMerger_Merge ext iter repo mergeCtx =
            Inr (zeroResult\<lparr>Success := True, FastForward := False, CommitSHA := commitSHA,
                    ResultMessage := ''Merge commit '' @ Short ext commitSHA @ '' created''\<rparr>,
                 written)))"
proof -
  have c1: "\<exists>ourSHA theirSHA.
          HashCommit ext (OurCommit mergeCtx) = Some ourSHA
        \<and> HashCommit ext (hd (TheirCommits mergeCtx)) = Some theirSHA
        \<and> ParentSHAs mergeCommit = [ourSHA, theirSHA]
        \<and> TreeSHA mergeCommit = HashTree ext mergedTree
        \<and> ReadTreeObject repo1 (TreeSHA mergeCommit) = Some mergedTree"
    if a: "createMergeCommit ext repo mergeCtx mergedTree = Inr (mergeCommit, repo1)"
  proof -
    from createMergeCommit_result[OF a] obtain ourSHA theirSHA theirCommit others commitSHA where
      r: "HashCommit ext (OurCommit mergeCtx) = Some ourSHA"
         "TheirCommits mergeCtx = theirCommit # others"
         "HashCommit ext theirCommit = Some theirSHA"
         "ParentSHAs mergeCommit = [ourSHA, theirSHA]"
         "TreeSHA mergeCommit = HashTree ext mergedTree"
         "repo1 = repo\<lparr>stored_trees := (stored_trees repo)(HashTree ext mergedTree \<mapsto> mergedTree),
                        stored_commits := (commitSHA, mergeCommit) # stored_commits repo\<rparr>"
      by auto
    have "ReadTreeObject repo1 (TreeSHA mergeCommit) = Some mergedTree"
      unfolding r(5) r(6) by (rule ReadTreeObject_written)
    with r show ?thesis by simp
  qed
  have c2: "\<exists>commit ourSHA theirSHA ourTree theirTree baseTree.
          ReadCommitObject repo2 (CommitSHA result) = Some commit
        \<and> HashCommit ext (OurCommit mergeCtx) = Some ourSHA
        \<and> HashCommit ext (hd (TheirCommits mergeCtx)) = Some theirSHA
        \<and> ParentSHAs commit = [ourSHA, theirSHA]
        \<and> ReadTreeObject repo (TreeSHA (OurCommit mergeCtx)) = Some ourTree
        \<and> ReadTreeObject repo (TreeSHA (hd (TheirCommits mergeCtx))) = Some theirTree
        \<and> ReadTreeObject repo (TreeSHA (the (BaseCommit mergeCtx))) = Some baseTree
        \<and> ReadTreeObject repo2 (TreeSHA commit) =
            Some (NewTree ext (fst (mergeTrees (stored_blobs repo) (NewRelativePath ext)
                                      (allPathsOrder iter) baseTree ourTree theirTree)))"
    if b: "ThreeWayMerger_Merge ext iter repo mergeCtx = Inr (result, repo2) \<and> Success result
        \<and> Mode (Config mergeCtx) \<noteq> ModeNoCommit"
  proof -
    from ThreeWayMerger_Merge_commit[of ext iter repo mergeCtx result repo2] b
    obtain ourTree theirTree baseTree commit where
      t: "ReadTreeObject repo (TreeSHA (OurCommit mergeCtx)) = Some ourTree"
         "ReadTreeObject repo (TreeSHA (hd (TheirCommits mergeCtx))) = Some theirTree"
         "ReadTreeObject repo (TreeSHA (the (BaseCommit mergeCtx))) = Some baseTree"
      and c: "createMergeCommit ext repo mergeCtx
                (NewTree ext (fst (mergeTrees (stored_blobs repo) (NewRelativePath ext)
                                     (allPathsOrder iter) baseTree ourTree theirTree)))
               = Inr (commit, repo2)"
      and h: "HashCommit ext commit = Some (CommitSHA result)"
      by blast
    let ?mt = "NewTree ext (fst (mergeTrees (stored_blobs repo) (NewRelativePath ext)
                                     (allPathsOrder iter) baseTree ourTree theirTree))"
    from createMergeCommit_result[OF c] obtain ourSHA theirSHA theirCommit others commitSHA where
      r: "HashCommit ext (OurCommit mergeCtx) = Some ourSHA"
         "TheirCommits mergeCtx = theirCommit # others"
         "HashCommit ext theirCommit = Some theirSHA"
         "ParentSHAs commit = [ourSHA, theirSHA]"
         "TreeSHA commit = HashTree ext ?mt"
         "HashCommit ext commit = Some commitSHA"
         "repo2 = repo\<lparr>stored_trees := (stored_trees repo)(HashTree ext ?mt \<mapsto> ?mt),
                        stored_commits := (commitSHA, commit) # stored_commits repo\<rparr>"
      by auto
    from h r(6) have cs: "commitSHA = CommitSHA result" by simp
    have rt: "ReadTreeObject repo2 (TreeSHA commit) = Some ?mt"
      unfolding r(5) r(7) by (rule ReadTreeObject_written)
    have rc: "ReadCommitObject repo2 (CommitSHA result) = Some commit"
      unfolding r(7) cs by (rule ReadCommitObject_written)
    from t r rt rc show ?thesis by simp
  qed
  have c3: "createMergeCommit ext repo mergeCtx tree = Inr (created, written)
      \<and> ReadCommitObject written commitSHA = Some created
      \<and> ReadTreeObject written (TreeSHA created) = Some tree"
    if env: "write_ok repo \<and> init_ok repo
        \<and> HashCommit ext (OurCommit mergeCtx) = Some headSHA
        \<and> TheirCommits mergeCtx \<noteq> []
        \<and> HashCommit ext (hd (TheirCommits mergeCtx)) = Some mergeHeadSHA
        \<and> created = \<lparr>TreeSHA = HashTree ext tree, ParentSHAs = [headSHA, mergeHeadSHA],
                       Author = Author (OurCommit mergeCtx),
                       Committer = Committer (OurCommit mergeCtx),
                       Message = (if ConfigMessage (Config mergeCtx) = []
                                  then ''Merge commit '' @ Short ext mergeHeadSHA @ '' into HEAD''
                                  else ConfigMessage (Config mergeCtx))\<rparr>
        \<and> HashCommit ext created = Some commitSHA
        \<and> written = repo\<lparr>stored_trees := (stored_trees repo)(HashTree ext tree \<mapsto> tree),
                          stored_commits := (commitSHA, created) # stored_commits repo\<rparr>"
  proof -
    from env have w: "written = repo\<lparr>stored_trees := (stored_trees repo)(HashTree ext tree \<mapsto> tree),
                          stored_commits := (commitSHA, created) # stored_commits repo\<rparr>"
      and hc: "HashCommit ext created = Some commitSHA"
      and e: "write_ok repo" "init_ok repo"
        "HashCommit ext (OurCommit mergeCtx) = Some headSHA" "TheirCommits mergeCtx \<noteq> []"
        "HashCommit ext (hd (TheirCommits mergeCtx)) = Some mergeHeadSHA"
      and cr: "created = \<lparr>TreeSHA = HashTree ext tree, ParentSHAs = [headSHA, mergeHeadSHA],
                       Author = Author (OurCommit mergeCtx),
                       Committer = Committer (OurCommit mergeCtx),
                       Message = (if ConfigMessage (Config mergeCtx) = []
                                  then ''Merge commit '' @ Short ext mergeHeadSHA @ '' into HEAD''
                                  else ConfigMessage (Config mergeCtx))\<rparr>"
      by blast+
    from cr have ts: "TreeSHA created = HashTree ext tree" by simp
    have cmc: "createMergeCommit ext repo mergeCtx tree = Inr (created, written)"
      unfolding w by (rule createMergeCommit_writes[OF e cr hc])
    have rc: "ReadCommitObject written commitSHA = Some created"
      unfolding w by (rule ReadCommitObject_written)
    have rt: "ReadTreeObject written (TreeSHA created) = Some tree"
      unfolding w ts by (rule ReadTreeObject_written)
    from cmc rc rt show ?thesis by simp
  qed
  have c4: "ThreeWayMerger_Merge ext iter repo mergeCtx =
            Inr (zeroResult\<lparr>Success := True, FastForward := False, CommitSHA := commitSHA,
                    ResultMessage := ''Merge commit '' @ Short ext commitSHA @ '' created''\<rparr>,
                 written)"
    if cmc: "createMergeCommit ext repo mergeCtx tree = Inr (created, written)"
      and hc: "HashCommit ext created = Some commitSHA"
      and m: "ThreeWayMerger_CanMerge mergeCtx
           \<and> ReadTreeObject repo (TreeSHA (OurCommit mergeCtx)) = Some oursTree
           \<and> ReadTreeObject repo (TreeSHA (hd (TheirCommits mergeCtx))) = Some theirsTree
           \<and> ReadTreeObject repo (TreeSHA (the (BaseCommit mergeCtx))) = Some commonTree
           \<and> mergeTrees (stored_blobs repo) (NewRelativePath ext) (allPathsOrder iter)
                commonTree oursTree theirsTree = (mergedEntries, [])
           \<and> NewTree ext mergedEntries = tree
           \<and> Mode (Config mergeCtx) \<noteq> ModeNoCommit"
  proof -
    from m cmc have c': "createMergeCommit ext repo mergeCtx (NewTree ext mergedEntries)
        = Inr (created, written)" by simp
    from m show ?thesis
      by (intro ThreeWayMerger_Merge_creates[where ourTree = oursTree and theirTree = theirsTree
            and baseTree = commonTree and mergedEntries = mergedEntries and mergeCommit = created,
            OF _ _ _ _ _ _ c' hc]) simp_all
  qed
  show ?thesis
    by (intro conjI impI) (use c1 c2 c3 c4 in \<open>blast+\<close>)
qed

theorem merge_commit_parents_and_tree_witness:
  "createMergeCommit squash_ext squash_repo merge_ctx
      [\<lparr>kind = FileEntry, name = ''f'', sha = ''3''\<rparr>, \<lparr>kind = FileEntry, name = ''g'', sha = ''2''\<rparr>]
     = Inr (\<lparr>TreeSHA = ''32'', ParentSHAs = [''ours'', ''theirs''], Author = ''T'',
              Committer = ''T'', Message = ''merge''\<rparr>,
            squash_repo\<lparr>stored_trees := (stored_trees squash_repo)(''32'' \<mapsto>
               [\<lparr>kind = FileEntry, name = ''f'', sha = ''3''\<rparr>, \<lparr>kind = FileEntry, name = ''g'', sha = ''2''\<rparr>]),
             stored_commits := (''merge'',
               \<lparr>TreeSHA = ''32'', ParentSHAs = [''ours'', ''theirs''], Author = ''T'',
                 Committer = ''T'', Message = ''merge''\<rparr>) # stored_commits squash_repo\<rparr>)
   \<and> ThreeWayMerger_Merge squash_ext squash_iter squash_repo merge_ctx
     = Inr (\<lparr>Success = True, FastForward = False, CommitSHA = ''merge'', Conflicts = [],
              FilesChanged = 0, Insertions = 0, Deletions = 0,
              ResultMessage = ''Merge commit merge created''\<rparr>,
            squash_repo\<lparr>stored_trees := (stored_trees squash_repo)(''32'' \<mapsto>
               [\<lparr>kind = FileEntry, name = ''f'', sha = ''3''\<rparr>, \<lparr>kind = FileEntry, name = ''g'', sha = ''2''\<rparr>]),
             stored_commits := (''merge'',
               \<lparr>TreeSHA = ''32'', ParentSHAs = [''ours'', ''theirs''], Author = ''T'',
                 Committer = ''T'', Message = ''merge''\<rparr>) # stored_commits squash_repo\<rparr>)
   \<and> (\<exists>commit.
        ReadCommitObject
          (squash_repo\<lparr>stored_trees := (stored_trees squash_repo)(''32'' \<mapsto>
               [\<lparr>kind = FileEntry, name = ''f'', sha = ''3''\<rparr>, \<lparr>kind = FileEntry, name = ''g'', sha = ''2''\<rparr>]),
             stored_commits := (''merge'',
               \<lparr>TreeSHA = ''32'', ParentSHAs = [''ours'', ''theirs''], Author = ''T'',
                 Committer = ''T'', Message = ''merge''\<rparr>) # stored_commits squash_repo\<rparr>) ''merge''
          = Some commit
        \<and> ParentSHAs commit = [''ours'', ''theirs'']
        \<and> ReadTreeObject
          (squash_repo\<lparr>stored_trees := (stored_trees squash_repo)(''32'' \<mapsto>
               [\<lparr>kind = FileEntry, name = ''f'', sha = ''3''\<rparr>, \<lparr>kind = FileEntry, name = ''g'', sha = ''2''\<rparr>]),
             stored_commits := (''merge'',
               \<lparr>TreeSHA = ''32'', ParentSHAs = [''ours'', ''theirs''], Author = ''T'',
                 Committer = ''T'', Message = ''merge''\<rparr>) # stored_commits squash_repo\<rparr>) (TreeSHA commit)
          = Some [\<lparr>kind = FileEntry, name = ''f'', sha = ''3''\<rparr>, \<lparr>kind = FileEntry, name = ''g'', sha = ''2''\<rparr>])"
proof -
  let ?tree = "[\<lparr>kind = FileEntry, name = ''f'', sha = ''3''\<rparr>, \<lparr>kind = FileEntry, name = ''g'', sha = ''2''\<rparr>]"
  let ?mc = "\<lparr>TreeSHA = ''32'', ParentSHAs = [''ours'', ''theirs''], Author = ''T'',
                 Committer = ''T'', Message = ''merge''\<rparr>"
  let ?repo2 = "squash_repo\<lparr>stored_trees := (stored_trees squash_repo)(''32'' \<mapsto> ?tree),
             stored_commits := (''merge'', ?mc) # stored_commits squash_repo\<rparr>"
  let ?result = "\<lparr>Success = True, FastForward = False, CommitSHA = ''merge'', Conflicts = [],
            FilesChanged = 0, Insertions = 0, Deletions = 0,
            ResultMessage = ''Merge commit merge created''\<rparr>"
  have hs: "HashCommit squash_ext (OurCommit merge_ctx) = Some ''ours''"
    "HashCommit squash_ext (hd (TheirCommits merge_ctx)) = Some ''theirs''"
    "NewTree squash_ext = (\<lambda>entries. entries)" "NewRelativePath squash_ext = (\<lambda>p. p)"
    "allPathsOrder squash_iter = [''f'', ''g'']" "stored_blobs squash_repo = Map.empty"
    "TreeSHA (OurCommit merge_ctx) = ''t1''" "TreeSHA (hd (TheirCommits merge_ctx)) = ''t2''"
    "TreeSHA (the (BaseCommit merge_ctx)) = ''t0''"
    by (simp_all add: squash_ext_def merge_ctx_def squash_iter_def squash_repo_def)
  have env: "write_ok squash_repo \<and> init_ok squash_repo
        \<and> HashCommit squash_ext (OurCommit merge_ctx) = Some ''ours''
        \<and> TheirCommits merge_ctx \<noteq> []
        \<and> HashCommit squash_ext (hd (TheirCommits merge_ctx)) = Some ''theirs''
        \<and> ?mc = \<lparr>TreeSHA = HashTree squash_ext ?tree, ParentSHAs = [''ours'', ''theirs''],
                       Author = Author (OurCommit merge_ctx),
                       Committer = Committer (OurCommit merge_ctx),
                       Message = (if ConfigMessage (Config merge_ctx) = []
                                  then ''Merge commit '' @ Short squash_ext ''theirs'' @ '' into HEAD''
                                  else ConfigMessage (Config merge_ctx))\<rparr>
        \<and> HashCommit squash_ext ?mc = Some ''merge''
        \<and> ?repo2 = squash_repo\<lparr>stored_trees := (stored_trees squash_repo)(HashTree squash_ext ?tree \<mapsto> ?tree),
                          stored_commits := (''merge'', ?mc) # stored_commits squash_repo\<rparr>"
    by (simp add: squash_ext_def merge_ctx_def squash_repo_def)
  have trees: "ThreeWayMerger_CanMerge merge_ctx
           \<and> ReadTreeObject squash_repo (TreeSHA (OurCommit merge_ctx)) =
               Some [\<lparr>kind = FileEntry, name = ''f'', sha = ''1''\<rparr>, \<lparr>kind = FileEntry, name = ''g'', sha = ''2''\<rparr>]
           \<and> ReadTreeObject squash_repo (TreeSHA (hd (TheirCommits merge_ctx))) =
               Some [\<lparr>kind = FileEntry, name = ''f'', sha = ''3''\<rparr>]
           \<and> ReadTreeObject squash_repo (TreeSHA (the (BaseCommit merge_ctx))) =
               Some [\<lparr>kind = FileEntry, name = ''f'', sha = ''1''\<rparr>]
           \<and> mergeTrees (stored_blobs squash_repo) (NewRelativePath squash_ext) (allPathsOrder squash_iter)
                [\<lparr>kind = FileEntry, name = ''f'', sha = ''1''\<rparr>]
                [\<lparr>kind = FileEntry, name = ''f'', sha = ''1''\<rparr>, \<lparr>kind = FileEntry, name = ''g'', sha = ''2''\<rparr>]
                [\<lparr>kind = FileEntry, name = ''f'', sha = ''3''\<rparr>] = (?tree, [])
           \<and> NewTree squash_ext ?tree = ?tree
           \<and> Mode (Config merge_ctx) \<noteq> ModeNoCommit"
    unfolding hs example_trees example_mergeTrees
    by (simp add: ThreeWayMerger_CanMerge_def merge_ctx_def)
  note inst = merge_commit_parents_and_tree[where ext = squash_ext and iter = squash_iter
      and repo = squash_repo and mergeCtx = merge_ctx and result = ?result and ?repo2.0 = ?repo2
      and mergedTree = ?tree and mergeCommit = ?mc and ?repo1.0 = ?repo2
      and headSHA = "''ours''" and mergeHeadSHA = "''theirs''" and created = ?mc
      and tree = ?tree and commitSHA = "''merge''" and written = ?repo2
      and oursTree = "[\<lparr>kind = FileEntry, name = ''f'', sha = ''1''\<rparr>, \<lparr>kind = FileEntry, name = ''g'', sha = ''2''\<rparr>]"
      and theirsTree = "[\<lparr>kind = FileEntry, name = ''f'', sha = ''3''\<rparr>]"
      and commonTree = "[\<lparr>kind = FileEntry, name = ''f'', sha = ''1''\<rparr>]"
      and mergedEntries = ?tree]
  note fwd = mp[OF conjunct2[OF conjunct2[OF inst]] env]
  from fwd have create: "createMergeCommit squash_ext squash_repo merge_ctx ?tree = Inr (?mc, ?repo2)"
    by (rule conjunct1)
  from fwd trees have run0: "ThreeWayMerger_Merge squash_ext squash_iter squash_repo merge_ctx =
      Inr (zeroResult\<lparr>Success := True, FastForward := False, CommitSHA := ''merge'',
              ResultMessage := ''Merge commit '' @ Short squash_ext ''merge'' @ '' created''\<rparr>, ?repo2)"
    by blast
  then have run: "ThreeWayMerger_Merge squash_ext squash_iter squash_repo merge_ctx = Inr (?result, ?repo2)"
    by (simp add: zeroResult_def squash_ext_def)
  have hyp1: "\<exists>ourSHA theirSHA.
          HashCommit squash_ext (OurCommit merge_ctx) = Some ourSHA
        \<and> HashCommit squash_ext (hd (TheirCommits merge_ctx)) = Some theirSHA
        \<and> ParentSHAs ?mc = [ourSHA, theirSHA]
        \<and> TreeSHA ?mc = HashTree squash_ext ?tree
        \<and> ReadTreeObject ?repo2 (TreeSHA ?mc) = Some ?tree"
    using conjunct1[OF inst] create by (rule mp)
  have hyp: "ThreeWayMerger_Merge squash_ext squash_iter squash_repo merge_ctx = Inr (?result, ?repo2)
      \<and> Success ?result \<and> Mode (Config merge_ctx) \<noteq> ModeNoCommit"
    using run by (simp add: merge_ctx_def)
  from conjunct1[OF conjunct2[OF inst]] hyp
  have "\<exists>commit ourSHA theirSHA ourTree theirTree baseTree.
          ReadCommitObject ?repo2 (CommitSHA ?result) = Some commit
        \<and> HashCommit squash_ext (OurCommit merge_ctx) = Some ourSHA
        \<and> HashCommit squash_ext (hd (TheirCommits merge_ctx)) = Some theirSHA
        \<and> ParentSHAs commit = [ourSHA, theirSHA]
        \<and> ReadTreeObject squash_repo (TreeSHA (OurCommit merge_ctx)) = Some ourTree
        \<and> ReadTreeObject squash_repo (TreeSHA (hd (TheirCommits merge_ctx))) = Some theirTree
        \<and> ReadTreeObject squash_repo (TreeSHA (the (BaseCommit merge_ctx))) = Some baseTree
        \<and> ReadTreeObject ?repo2 (TreeSHA commit) =
            Some (NewTree squash_ext (fst (mergeTrees (stored_blobs squash_repo) (NewRelativePath squash_ext)
                                      (allPathsOrder squash_iter) baseTree ourTree theirTree)))"
    by (rule mp)
  then obtain commit where c: "ReadCommitObject ?repo2 (CommitSHA ?result) = Some commit"
      "ParentSHAs commit = [''ours'', ''theirs'']"
      "ReadTreeObject ?repo2 (TreeSHA commit) = Some ?tree"
    unfolding hs example_trees by (auto simp: example_mergeTrees)
  then have "\<exists>commit. ReadCommitObject ?repo2 ''merge'' = Some commit
        \<and> ParentSHAs commit = [''ours'', ''theirs'']
        \<and> ReadTreeObject ?repo2 (TreeSHA commit) = Some ?tree"
    by auto
  with create run show ?thesis by blast
qed

text \<open>
  Claim C4 asks that the commit of a successful squash merge has HEAD as its only parent and
  the merge result of base, ours and theirs as its tree. In the small repository the squash
  commit has the single parent \<open>ours\<close>, but its tree is \<open>t2\<close>, the tree of \<open>theirs\<close>, which
  lacks the file \<open>g\<close> that the merge of the three trees keeps.
\<close>

theorem squash_commit_uses_their_tree:
  "SquashMerger_Merge squash_ext squash_iter squash_repo squash_ctx =
     Inr (\<lparr>Success = True, FastForward = False, CommitSHA = ''squash'', Conflicts = [],
            FilesChanged = 0, Insertions = 0, Deletions = 0,
            ResultMessage = ''Squash merge of theirs into ours''\<rparr>,
          squash_repo\<lparr>stored_commits := (''squash'',
             \<lparr>TreeSHA = ''t2'', ParentSHAs = [''ours''], Author = ''T'', Committer = ''T'',
               Message = ''squash''\<rparr>) # stored_commits squash_repo\<rparr>)
   \<and> ReadTreeObject squash_repo ''t2'' = Some [\<lparr>kind = FileEntry, name = ''f'', sha = ''3''\<rparr>]
   \<and> NewTree squash_ext
        (fst (mergeTrees (stored_blobs squash_repo) (NewRelativePath squash_ext)
               (allPathsOrder squash_iter)
               [\<lparr>kind = FileEntry, name = ''f'', sha = ''1''\<rparr>]
               [\<lparr>kind = FileEntry, name = ''f'', sha = ''1''\<rparr>, \<lparr>kind = FileEntry, name = ''g'', sha = ''2''\<rparr>]
               [\<lparr>kind = FileEntry, name = ''f'', sha = ''3''\<rparr>]))
      = [\<lparr>kind = FileEntry, name = ''f'', sha = ''3''\<rparr>, \<lparr>kind = FileEntry, name = ''g'', sha = ''2''\<rparr>]"
proof -
  have b: "stored_blobs squash_repo = Map.empty" "write_ok squash_repo" "init_ok squash_repo"
    by (simp_all add: squash_repo_def)
  let ?nc = "\<lparr>OurCommit = OurCommit squash_ctx, TheirCommits = TheirCommits squash_ctx,
              BaseCommit = Some \<lparr>TreeSHA = ''t0'', ParentSHAs = [], Author = ''T'', Committer = ''T'', Message = ''base''\<rparr>,
              Config = (Config squash_ctx)\<lparr>Mode := ModeNoCommit\<rparr>\<rparr>"
  have tw: "ThreeWayMerger_Merge squash_ext squash_iter squash_repo ?nc =
      Inr (\<lparr>Success = True, FastForward = False, CommitSHA = [], Conflicts = [],
            FilesChanged = 0, Insertions = 0, Deletions = 0,
            ResultMessage = ''Changes staged but not committed (--no-commit)''\<rparr>, squash_repo)"
    unfolding ThreeWayMerger_Merge_def
    by (simp add: ThreeWayMerger_CanMerge_def squash_ctx_def Let_def example_trees b squash_ext_def
        squash_iter_def example_mergeTrees zeroResult_def updateIndex_def)
  have rm: "RecursiveMerger_Merge squash_ext squash_iter squash_repo
      \<lparr>OurCommit = OurCommit squash_ctx, TheirCommits = TheirCommits squash_ctx,
        BaseCommit = BaseCommit squash_ctx, Config = (Config squash_ctx)\<lparr>Mode := ModeNoCommit\<rparr>\<rparr> =
      Inr (\<lparr>Success = True, FastForward = False, CommitSHA = [], Conflicts = [],
            FilesChanged = 0, Insertions = 0, Deletions = 0,
            ResultMessage = ''Changes staged but not committed (--no-commit)''\<rparr>, squash_repo)"
    unfolding RecursiveMerger_Merge_def
    using tw example_merge_base
    by (simp add: RecursiveMerger_CanMerge_def squash_ctx_def squash_ext_def squash_iter_def Let_def)
  have sq: "SquashMerger_Merge squash_ext squash_iter squash_repo squash_ctx =
     Inr (\<lparr>Success = True, FastForward = False, CommitSHA = ''squash'', Conflicts = [],
            FilesChanged = 0, Insertions = 0, Deletions = 0,
            ResultMessage = ''Squash merge of theirs into ours''\<rparr>,
          squash_repo\<lparr>stored_commits := (''squash'',
             \<lparr>TreeSHA = ''t2'', ParentSHAs = [''ours''], Author = ''T'', Committer = ''T'',
               Message = ''squash''\<rparr>) # stored_commits squash_repo\<rparr>)"
    unfolding SquashMerger_Merge_def
    using rm
    by (simp add: SquashMerger_CanMerge_def Let_def)
       (simp add: squash_ctx_def squash_ext_def WriteCommit_def b zeroResult_def Let_def)
  show ?thesis
    using sq example_trees(3) example_mergeTrees
    by (simp add: squash_ext_def squash_iter_def b)
qed

end
